theory Spec2Isabelle
  imports Main "HOL-Library.AList"
begin

section \<open>Python string primitives used by \<open>cobbler/templar.py\<close>\<close>

text \<open>
  A Python \<open>str\<close> is modelled as a \<^typ>\<open>string\<close>; each \<^typ>\<open>char\<close> stands for one
  code point in the range 0..255, so the character classes below are those of Python
  on that range.
\<close>

text \<open>\<open>str.isspace\<close> on one code point; it is also what \<open>str.strip()\<close> removes and what
  the regular-expression class \<open>\s\<close> matches.\<close>

definition is_space :: "char \<Rightarrow> bool" where
  "is_space c =
     (let n = (of_char c :: nat)
      in (9 \<le> n \<and> n \<le> 13) \<or> (28 \<le> n \<and> n \<le> 32) \<or> n = 133 \<or> n = 160)"

text \<open>\<open>str.lower\<close> on one code point.\<close>

definition lower_char :: "char \<Rightarrow> char" where
  "lower_char c =
     (let n = (of_char c :: nat)
      in if (65 \<le> n \<and> n \<le> 90) \<or> (192 \<le> n \<and> n \<le> 222 \<and> n \<noteq> 215)
         then char_of (n + 32) else c)"

definition lower :: "string \<Rightarrow> string" where
  "lower s = map lower_char s"

text \<open>\<open>s.lstrip()\<close>, \<open>s.strip()\<close> and \<open>s.strip(chars)\<close>.\<close>

definition lstrip :: "string \<Rightarrow> string" where
  "lstrip s = dropWhile is_space s"

definition strip :: "string \<Rightarrow> string" where
  "strip s = rev (dropWhile is_space (rev (dropWhile is_space s)))"

definition strip_chars :: "string \<Rightarrow> string \<Rightarrow> string" where
  "strip_chars chars s =
     rev (dropWhile (\<lambda>c. c \<in> set chars) (rev (dropWhile (\<lambda>c. c \<in> set chars) s)))"

text \<open>\<open>s.startswith(p)\<close>.\<close>

definition startswith :: "string \<Rightarrow> string \<Rightarrow> bool" where
  "startswith s p = (take (length p) s = p)"

text \<open>\<open>s.find(sub)\<close>: the index of the first occurrence, or \<open>-1\<close>.\<close>

fun find_str :: "string \<Rightarrow> string \<Rightarrow> int" where
  "find_str [] sub = (if sub = [] then 0 else - 1)"
| "find_str (c # cs) sub =
     (if startswith (c # cs) sub then 0
      else (let r = find_str cs sub in if r = - 1 then - 1 else r + 1))"

text \<open>\<open>s.replace(old, new)\<close>: every non-overlapping occurrence, from the left. With an
  empty \<open>old\<close> Python inserts \<open>new\<close> before every character and at the end.\<close>

function replace_ne :: "string \<Rightarrow> string \<Rightarrow> string \<Rightarrow> string" where
  "replace_ne old new [] = []"
| "replace_ne old new (c # cs) =
     (if old \<noteq> [] \<and> startswith (c # cs) old
      then new @ replace_ne old new (drop (length old) (c # cs))
      else c # replace_ne old new cs)"
  by pat_completeness auto
termination
  by (relation "measure (\<lambda>(old, new, s). length s)") auto

definition replace :: "string \<Rightarrow> string \<Rightarrow> string \<Rightarrow> string" where
  "replace s old new =
     (if old = [] then new @ concat (map (\<lambda>c. c # new) s) else replace_ne old new s)"

text \<open>\<open>s.split(sep)\<close> and \<open>s.split(sep, maxsplit)\<close> for a one-character separator, the
  only form the module uses (\<open>"\n"\<close>, \<open>"="\<close>, \<open>":"\<close>). The result is never empty.\<close>

fun split :: "string \<Rightarrow> char \<Rightarrow> string list" where
  "split [] sep = [[]]"
| "split (c # cs) sep =
     (if c = sep then [] # split cs sep
      else (let r = split cs sep in (c # hd r) # tl r))"

fun split_max :: "string \<Rightarrow> char \<Rightarrow> nat \<Rightarrow> string list" where
  "split_max [] sep n = [[]]"
| "split_max (c # cs) sep 0 = [c # cs]"
| "split_max (c # cs) sep (Suc n) =
     (if c = sep then [] # split_max cs sep n
      else (let r = split_max cs sep (Suc n) in (c # hd r) # tl r))"

text \<open>\<open>sep.join(xs)\<close>.\<close>

fun join :: "string \<Rightarrow> string list \<Rightarrow> string" where
  "join sep [] = []"
| "join sep [x] = x"
| "join sep (x # y # ys) = x @ sep @ join sep (y # ys)"

text \<open>\<open>str(n)\<close> for an integer.\<close>

definition digit_char :: "nat \<Rightarrow> char" where
  "digit_char d = ''0123456789abcdef'' ! d"

function str_nat :: "nat \<Rightarrow> string" where
  "str_nat n = (if n < 10 then [digit_char n] else str_nat (n div 10) @ [digit_char (n mod 10)])"
  by pat_completeness auto
termination
  by (relation "measure id") auto

definition str_int :: "int \<Rightarrow> string" where
  "str_int i = (if i < 0 then CHR ''-'' # str_nat (nat (- i)) else str_nat (nat i))"

section \<open>Values, dictionaries and exceptions\<close>

text \<open>
  A context value is a string, an integer or a nested dictionary. A dictionary is an
  association list in insertion order: \<open>d[k] = v\<close> is \<^const>\<open>AList.update\<close> (an
  existing key keeps its place, a new one goes last), \<open>k in d\<close> and \<open>d[k]\<close> read
  \<^const>\<open>map_of\<close>. The values are immutable, so \<open>d.copy()\<close> is \<open>d\<close> itself.
\<close>

datatype pyval = VStr string | VInt int | VDict "(string \<times> pyval) list"

type_synonym table = "(string \<times> pyval) list"

definition dict_get :: "table \<Rightarrow> string \<Rightarrow> pyval \<Rightarrow> pyval" where
  "dict_get d k dflt = (case map_of d k of None \<Rightarrow> dflt | Some v \<Rightarrow> v)"

text \<open>\<open>repr\<close> of a string, and \<open>str\<close> of a value as the \<open>%s\<close> format produces it.\<close>

definition repr_char :: "char \<Rightarrow> char \<Rightarrow> string" where
  "repr_char q c =
     (let n = (of_char c :: nat)
      in if c = q \<or> c = CHR 0x5C then [CHR 0x5C, c]
         else if n = 9 then [CHR 0x5C, CHR ''t'']
         else if n = 10 then [CHR 0x5C, CHR ''n'']
         else if n = 13 then [CHR 0x5C, CHR ''r'']
         else if n < 32 \<or> n = 127 \<or> (128 \<le> n \<and> n \<le> 160) \<or> n = 173
           then [CHR 0x5C, CHR ''x'', digit_char (n div 16), digit_char (n mod 16)]
         else [c])"

definition repr_str :: "string \<Rightarrow> string" where
  "repr_str s =
     (let q = (if CHR 0x27 \<in> set s \<and> CHR 0x22 \<notin> set s then CHR 0x22 else CHR 0x27)
      in q # concat (map (repr_char q) s) @ [q])"

fun repr :: "pyval \<Rightarrow> string" and repr_items :: "(string \<times> pyval) list \<Rightarrow> string" where
  "repr (VStr s) = repr_str s"
| "repr (VInt i) = str_int i"
| "repr (VDict d) = ''{'' @ repr_items d @ ''}''"
| "repr_items [] = []"
| "repr_items ((k, v) # r) =
     repr_str k @ '': '' @ repr v @ (if r = [] then [] else '', '' @ repr_items r)"

definition py_str :: "pyval \<Rightarrow> string" where
  "py_str v = (case v of VStr s \<Rightarrow> s | _ \<Rightarrow> repr v)"

text \<open>The exceptions that leave the module. \<open>CX\<close> is Cobbler's own; \<open>EngineError\<close> is any
  exception of a template library, with its text.\<close>

datatype exn =
    CX string
  | KeyError string
  | TypeError string
  | AttributeError string
  | ValueError string
  | OSError string
  | EngineError string

section \<open>Collaborators\<close>

text \<open>The fields of \<open>collection_mgr.settings()\<close> that the module reads. \<open>self.settings\<close>
  is \<open>None\<close> when the Templar was built without a collection manager.\<close>

record settings =
  default_template_type :: string
  cheetah_import_whitelist :: "string list"
  jinja2_includedir :: string
  server :: string

text \<open>
  What the module gets from outside the repository, as parameters:
  the template libraries, the macro file, the helpers of \<open>utils\<close> and \<open>pprint\<close>, the
  file system, and the hash of strings, which decides the order in which Python
  iterates a \<open>set\<close>.
  A compiled Cheetah template is the function that runs it: given whether the snippet
  functions were bound (line 223) and the search list, it raises (the text of the
  exception) or yields the output with the errors its error catcher listed.
  \<open>mkdir\<close> is \<open>utils.mkdir\<close>: the exception it raises for a directory, if any.
  \<open>open_w\<close> is \<open>open(path, "w+")\<close> on the file system: the text of the \<open>OSError\<close> it
  raises, if any. \<open>file_write\<close> is the writing of a text to the file opened at a path,
  up to the end of the \<open>with\<close> block: when it raises, the exception and what the file
  is left with.
\<close>

type_synonym cheetah_template = "bool \<Rightarrow> table \<Rightarrow> string + (string \<times> string list)"

record env =
  jinja2_available :: bool
  macros_file :: "string option"
  compile_macros :: "string \<Rightarrow> string option"
  compile_template :: "string \<Rightarrow> string \<Rightarrow> string + cheetah_template"
  cheetah_version :: "(int \<times> int \<times> int) option"
  jinja2_render :: "string option \<Rightarrow> string \<Rightarrow> table \<Rightarrow> string + string"
  pformat :: "string list \<Rightarrow> string"
  cheetah_exc :: "string \<Rightarrow> string"
  mkdir :: "string \<Rightarrow> exn option"
  open_w :: "string \<Rightarrow> string option"
  file_write :: "string \<Rightarrow> string \<Rightarrow> (exn \<times> string) option"
  str_hash :: "string \<Rightarrow> nat"

text \<open>The iteration order of \<open>set(xs)\<close>: the elements without repetition, in the order
  of their hashes. Every enumeration of the set is the order of some hash.\<close>

definition set_order :: "env \<Rightarrow> string list \<Rightarrow> string list" where
  "set_order e xs = sort_key (str_hash e) (remdups xs)"

text \<open>The mutable state a call works on: the caller's dictionary, the Templar's
  \<open>last_errors\<close>, the logger's output and the files written.\<close>

datatype log_entry = Warning string | Error string

record state =
  search_table :: table
  last_errors :: "string list"
  logger :: "log_entry list"
  dirs :: "string list"
  files :: "(string \<times> string) list"

datatype data_input = Str string | TextIO string

section \<open>\<open>Templar.check_for_invalid_imports\<close> (lines 77--89)\<close>

definition import_rest :: "string \<Rightarrow> string" where
  "import_rest line = strip (replace (replace line ''#import'' []) '' '' [])"

fun check_lines :: "settings option \<Rightarrow> string list \<Rightarrow> exn + unit" where
  "check_lines st [] = Inr ()"
| "check_lines st (line # lines) =
     (if find_str line ''#import'' \<noteq> - 1
      then (let rest = import_rest line
            in case st of
                 None \<Rightarrow> check_lines st lines
               | Some s \<Rightarrow>
                   if rest \<notin> set (cheetah_import_whitelist s)
                   then Inl (CX (''potentially insecure import in template: '' @ rest))
                   else check_lines st lines)
      else check_lines st lines)"

definition check_for_invalid_imports :: "settings option \<Rightarrow> string \<Rightarrow> exn + unit" where
  "check_for_invalid_imports st data = check_lines st (split data CHR 0x0A)"

section \<open>\<open>Templar.render_cheetah\<close> (lines 164--238)\<close>

text \<open>Lines 183--191: one line of the NFS rewrite, for the \<open>tree\<close> value \<open>t\<close>.\<close>

definition nfs_line :: "string \<Rightarrow> string \<Rightarrow> exn + string" where
  "nfs_line t line =
     (if find_str line ''--url'' \<noteq> - 1 \<and> find_str line ''url '' \<noteq> - 1
      then (let rest = drop 6 t
            in case split_max rest CHR '':'' 2 of
                 [host, directory] \<Rightarrow>
                   Inr (''nfs --server '' @ host @ '' --dir '' @ directory
                        @ [CHR 0x0A] @ ''#url --url='' @ t)
               | _ \<Rightarrow> Inl (CX (''Invalid syntax for NFS path given during import: '' @ t)))
      else Inr line)"

text \<open>Lines 182--192: the loop, with \<open>newdata\<close> as accumulator.\<close>

fun nfs_loop :: "string \<Rightarrow> string \<Rightarrow> string list \<Rightarrow> exn + string" where
  "nfs_loop t newdata [] = Inr newdata"
| "nfs_loop t newdata (line # lines) =
     (case nfs_line t line of
        Inl e \<Rightarrow> Inl e
      | Inr line' \<Rightarrow> nfs_loop t (newdata @ line' @ [CHR 0x0A]) lines)"

text \<open>Lines 180--193. \<open>search_table["tree"].startswith\<close> exists on a string only.\<close>

definition nfs_rewrite :: "table \<Rightarrow> string \<Rightarrow> exn + string" where
  "nfs_rewrite tbl raw_data =
     (case map_of tbl ''tree'' of
        None \<Rightarrow> Inr raw_data
      | Some (VStr t) \<Rightarrow>
          if startswith t ''nfs://'' then nfs_loop t [] (split raw_data CHR 0x0A)
          else Inr raw_data
      | Some _ \<Rightarrow> Inl (AttributeError ''startswith''))"

text \<open>Lines 173--196: the source handed to the Cheetah compiler.\<close>

definition cheetah_source :: "settings option \<Rightarrow> table \<Rightarrow> string \<Rightarrow> exn + string" where
  "cheetah_source st tbl raw_data =
     (case check_for_invalid_imports st raw_data of
        Inl e \<Rightarrow> Inl e
      | Inr _ \<Rightarrow>
          (case nfs_rewrite tbl (replace raw_data ''TEMPLATE::'' ''$'') of
             Inl e \<Rightarrow> Inl e
           | Inr raw \<Rightarrow> Inr (''#errorCatcher ListErrors'' @ [CHR 0x0A] @ raw)))"

text \<open>Line 223: the comparison of version tuples.\<close>

definition version_ge :: "int \<times> int \<times> int \<Rightarrow> int \<times> int \<times> int \<Rightarrow> bool" where
  "version_ge v w =
     (case (v, w) of ((a, b, c), (x, y, z)) \<Rightarrow>
        a > x \<or> (a = x \<and> (b > y \<or> (b = y \<and> c \<ge> z))))"

text \<open>Lines 198--238: the universe entry, the macro file, compilation and the run.\<close>

definition cheetah_run :: "env \<Rightarrow> state \<Rightarrow> string \<Rightarrow> (exn + string) \<times> state" where
  "cheetah_run e s raw_data =
     (let table_copy = search_table s;
          s1 = s\<lparr>search_table :=
                   AList.update ''template_universe'' (VDict table_copy) (search_table s)\<rparr>
      in case macros_file e of
           None \<Rightarrow> (Inl (OSError ''/etc/cobbler/cheetah_macros''), s1)
         | Some cheetah_macros_content \<Rightarrow>
         (case compile_macros e cheetah_macros_content of
           Some err \<Rightarrow> (Inl (EngineError err), s1)
         | None \<Rightarrow>
         (case compile_template e cheetah_macros_content raw_data of
           Inl err \<Rightarrow> (Inl (EngineError err), s1)
         | Inr template \<Rightarrow>
         (case cheetah_version e of
           None \<Rightarrow> (Inl (ValueError ''Cheetah.Version''), s1)
         | Some v \<Rightarrow>
         (case template (version_ge v (2, 4, 2)) (search_table s1) of
           Inl err \<Rightarrow>
             (Inl (CX ''Error templating file, check cobbler.log for more details''),
              s1\<lparr>logger := logger s1 @ [Error (cheetah_exc e err)]\<rparr>)
         | Inr (data_out, errors) \<Rightarrow>
             (Inr data_out,
              s1\<lparr>last_errors := errors,
                 logger := logger s1 @
                   (if errors \<noteq> []
                    then [Warning ''errors were encountered rendering the template'',
                          Warning ([CHR 0x0A] @ pformat e errors)]
                    else [])\<rparr>))))))"

definition render_cheetah ::
  "env \<Rightarrow> settings option \<Rightarrow> state \<Rightarrow> string \<Rightarrow> (exn + string) \<times> state" where
  "render_cheetah e st s raw_data =
     (case cheetah_source st (search_table s) raw_data of
        Inl err \<Rightarrow> (Inl err, s)
      | Inr src \<Rightarrow> cheetah_run e s src)"

section \<open>\<open>Templar.render_jinja2\<close> (lines 240--262)\<close>

definition jinja2_placeholder :: string where
  "jinja2_placeholder = ''# EXCEPTION OCCURRED DURING JINJA2 TEMPLATE PROCESSING'' @ [CHR 0x0A]"

definition jinja2_loader :: "settings option \<Rightarrow> string option" where
  "jinja2_loader st =
     (case st of
        None \<Rightarrow> None
      | Some s \<Rightarrow> if jinja2_includedir s \<noteq> [] then Some (jinja2_includedir s) else None)"

definition render_jinja2 ::
  "env \<Rightarrow> settings option \<Rightarrow> state \<Rightarrow> string \<Rightarrow> (exn + string) \<times> state" where
  "render_jinja2 e st s raw_data =
     (case jinja2_render e (jinja2_loader st) raw_data (search_table s) of
        Inr data_out \<Rightarrow> (Inr data_out, s)
      | Inl exc \<Rightarrow>
          (Inr jinja2_placeholder,
           s\<lparr>logger := logger s @
                [Warning ''errors were encountered rendering the template'', Warning exc]\<rparr>))"

section \<open>\<open>Templar.render\<close> (lines 91--162)\<close>

text \<open>Lines 112--116: what the selector \<open>"default"\<close> stands for.\<close>

definition default_type :: "settings option \<Rightarrow> string \<Rightarrow> string" where
  "default_type st template_type =
     (if template_type = ''default''
      then (case st of
              None \<Rightarrow> ''cheetah''
            | Some s \<Rightarrow>
                if default_template_type s \<noteq> [] then default_template_type s
                else ''cheetah'')
      else template_type)"

text \<open>Lines 118--123: the directive on the first line. \<open>lines\<close> is the result of a
  \<open>split\<close> and so is not empty; a first line that starts with \<open>#template=\<close> has a
  second field.\<close>

definition directive :: "string \<Rightarrow> string \<Rightarrow> string \<times> string" where
  "directive template_type raw_data =
     (let lines = split raw_data CHR 0x0A
      in if length lines > 0 \<and> find_str (hd lines) ''#template='' = 0
         then (lower (strip (split (hd lines) CHR ''='' ! 1)), join [CHR 0x0A] (tl lines))
         else (template_type, raw_data))"

text \<open>Lines 137--143: the \<open>http_server\<close> entry.\<close>

definition http_server :: "settings option \<Rightarrow> table \<Rightarrow> exn + table" where
  "http_server st tbl =
     (let hp = dict_get tbl ''http_port'' (VStr ''80'')
      in case st of
           None \<Rightarrow> Inl (AttributeError ''server'')
         | Some s \<Rightarrow>
             (let srv = dict_get tbl ''server'' (VStr (server s));
                  repstr = (if hp \<noteq> VInt 80 \<and> hp \<noteq> VStr ''80''
                            then VStr (py_str srv @ '':'' @ py_str hp)
                            else srv)
              in Inr (AList.update ''http_server'' repstr tbl)))"

text \<open>Lines 146--148: the matches of \<open>@@[\S]*?@@\<close>, from the left and without overlap.
  \<open>lazy_body\<close> is the shortest run of non-space characters that a closing \<open>@@\<close>
  follows.\<close>

fun lazy_body :: "string \<Rightarrow> string option" where
  "lazy_body [] = None"
| "lazy_body (c # cs) =
     (if startswith (c # cs) ''@@'' then Some []
      else if is_space c then None
      else map_option ((#) c) (lazy_body cs))"

function finditer :: "string \<Rightarrow> string list" where
  "finditer [] = []"
| "finditer (c # cs) =
     (if startswith (c # cs) ''@@''
      then (case lazy_body (drop 2 (c # cs)) of
              Some b \<Rightarrow> (''@@'' @ b @ ''@@'') # finditer (drop (length b + 4) (c # cs))
            | None \<Rightarrow> finditer cs)
      else finditer cs)"
  by pat_completeness auto
termination
  by (relation "measure length") auto

text \<open>Lines 149--150: the loop over the set of matches; the key is looked up before
  \<open>str.replace\<close> is called, which takes a string only.\<close>

fun substitute :: "table \<Rightarrow> string list \<Rightarrow> string \<Rightarrow> exn + string" where
  "substitute tbl [] data_out = Inr data_out"
| "substitute tbl (m # ms) data_out =
     (case map_of tbl (strip_chars ''@@'' m) of
        None \<Rightarrow> Inl (KeyError (strip_chars ''@@'' m))
      | Some (VStr v) \<Rightarrow> substitute tbl ms (replace data_out m v)
      | Some _ \<Rightarrow> Inl (TypeError ''replace() argument 2 must be str''))"

definition token_substitution :: "env \<Rightarrow> table \<Rightarrow> string \<Rightarrow> exn + string" where
  "token_substitution e tbl data_out = substitute tbl (set_order e (finditer data_out)) data_out"

text \<open>Lines 153--154.\<close>

definition trim_leading :: "string \<Rightarrow> string" where
  "trim_leading data_out =
     (if startswith data_out [CHR 0x0A] then lstrip data_out else data_out)"

text \<open>Lines 157--160, with \<open>os.path.dirname\<close>; the directory made and the file written
  are recorded in the state. Each of the three steps can raise, and what it raises
  leaves \<open>render\<close>. Whatever the file system, \<open>open\<close> raises \<open>ValueError\<close> for a path
  with a null character, and an \<open>OSError\<close> for the empty path and for a path that ends
  with a slash, which names no file. The mode \<open>w+\<close> empties the file when it opens it.\<close>

definition dirname :: "string \<Rightarrow> string" where
  "dirname p =
     (let head = rev (dropWhile (\<lambda>c. c \<noteq> CHR ''/'') (rev p))
      in if head \<noteq> [] \<and> head \<noteq> replicate (length head) CHR ''/''
         then rev (dropWhile (\<lambda>c. c = CHR ''/'') (rev head))
         else head)"

definition open_out :: "env \<Rightarrow> string \<Rightarrow> exn option" where
  "open_out e p =
     (if CHR 0x00 \<in> set p then Some (ValueError ''embedded null byte'')
      else if p = [] \<or> last p = CHR ''/'' then Some (OSError p)
      else map_option OSError (open_w e p))"

definition write_out :: "env \<Rightarrow> string option \<Rightarrow> string \<Rightarrow> state \<Rightarrow> exn option \<times> state" where
  "write_out e out_path data_out s =
     (case out_path of
        None \<Rightarrow> (None, s)
      | Some p \<Rightarrow>
          (case mkdir e (dirname p) of
             Some err \<Rightarrow> (Some err, s)
           | None \<Rightarrow>
               (let s1 = s\<lparr>dirs := dirs s @ [dirname p]\<rparr>
                in case open_out e p of
                     Some err \<Rightarrow> (Some err, s1)
                   | None \<Rightarrow>
                       (case file_write e p data_out of
                          Some (err, left) \<Rightarrow>
                            (Some err, s1\<lparr>files := AList.update p left (files s1)\<rparr>)
                        | None \<Rightarrow>
                            (None, s1\<lparr>files := AList.update p data_out (files s1)\<rparr>)))))"

text \<open>Lines 137--162: what follows the engine.\<close>

definition post_filter ::
  "env \<Rightarrow> settings option \<Rightarrow> string option \<Rightarrow> state \<Rightarrow> string \<Rightarrow> (exn + string) \<times> state" where
  "post_filter e st out_path s data_out =
     (case http_server st (search_table s) of
        Inl err \<Rightarrow> (Inl err, s)
      | Inr tbl \<Rightarrow>
          (let s1 = s\<lparr>search_table := tbl\<rparr>
           in case token_substitution e tbl data_out of
                Inl err \<Rightarrow> (Inl err, s1)
              | Inr data_out1 \<Rightarrow>
                  (let data_out2 = trim_leading data_out1
                   in case write_out e out_path data_out2 s1 of
                        (Some err, s2) \<Rightarrow> (Inl err, s2)
                      | (None, s2) \<Rightarrow> (Inr data_out2, s2))))"

text \<open>Lines 125--133: the engine for a resolved type; \<open>Inl\<close> is the text returned at
  once, without the post-filter.\<close>

definition run_engine ::
  "env \<Rightarrow> settings option \<Rightarrow> state \<Rightarrow> string \<Rightarrow> string \<Rightarrow> string + ((exn + string) \<times> state)" where
  "run_engine e st s template_type raw_data =
     (if template_type = ''cheetah'' then Inr (render_cheetah e st s raw_data)
      else if template_type = ''jinja2''
      then (if jinja2_available e then Inr (render_jinja2 e st s raw_data)
            else Inl (''# ERROR: JINJA2 NOT AVAILABLE. Maybe you need to install python-jinja2?''
                      @ [CHR 0x0A]))
      else Inl (''# ERROR: UNSUPPORTED TEMPLATE TYPE ('' @ template_type @ '')''))"

definition read_input :: "data_input \<Rightarrow> string" where
  "read_input data_input = (case data_input of Str raw \<Rightarrow> raw | TextIO content \<Rightarrow> content)"

definition render ::
  "env \<Rightarrow> settings option \<Rightarrow> state \<Rightarrow> data_input \<Rightarrow> string option \<Rightarrow> string
     \<Rightarrow> (exn + string) \<times> state" where
  "render e st s data_input out_path template_type =
     (let raw_data = read_input data_input
      in if template_type \<notin> {''default'', ''jinja2'', ''cheetah''}
         then (Inr ''# ERROR: Unsupported template type selected!'', s)
         else (case directive (default_type st template_type) raw_data of
                 (template_type', raw_data') \<Rightarrow>
                   (case run_engine e st s template_type' raw_data' of
                      Inl msg \<Rightarrow> (Inr msg, s)
                    | Inr (Inl err, s1) \<Rightarrow> (Inl err, s1)
                    | Inr (Inr data_out, s1) \<Rightarrow> post_filter e st out_path s1 data_out)))"

section \<open>A concrete installation, for the examples\<close>

text \<open>Template libraries that return their source unchanged; the Jinja2 one rejects the
  unfinished template \<open>{{\<close>, the Cheetah one the unfinished directive \<open>#if\<close>. Every
  directory can be made and every file that \<open>open\<close> accepts can be written.\<close>

definition example_env :: env where
  "example_env =
     \<lparr>jinja2_available = True,
      macros_file = Some ''#def m()'',
      compile_macros = (\<lambda>content. None),
      compile_template =
        (\<lambda>content src. if src = ''#if'' then Inl ''ParseError'' else Inr (\<lambda>bound tbl. Inr (src, []))),
      cheetah_version = Some (3, 2, 6),
      jinja2_render =
        (\<lambda>dir src tbl. if src = ''{{'' then Inl ''unexpected end of template'' else Inr src),
      pformat = concat,
      cheetah_exc = id,
      mkdir = (\<lambda>dir. None),
      open_w = (\<lambda>path. None),
      file_write = (\<lambda>path text. None),
      str_hash = length\<rparr>"

definition example_settings :: settings where
  "example_settings =
     \<lparr>default_template_type = ''cheetah'',
      cheetah_import_whitelist = [''random'', ''re'', ''time''],
      jinja2_includedir = [],
      server = ''h1''\<rparr>"

definition example_state :: "table \<Rightarrow> state" where
  "example_state tbl =
     \<lparr>search_table = tbl, last_errors = [], logger = [], dirs = [], files = []\<rparr>"

section \<open>Auxiliary facts\<close>

lemma startswith_simps [simp]:
  "startswith s [] = True"
  "startswith [] (p # ps) = False"
  "startswith (c # cs) (p # ps) = (c = p \<and> startswith cs ps)"
  by (auto simp: startswith_def)

lemma set_set_order: "set (set_order e xs) = set xs"
  by (simp add: set_order_def)

lemma distinct_set_order: "distinct (set_order e xs)"
  by (simp add: set_order_def)

lemma set_order_Nil: "set_order e [] = []"
  by (simp add: set_order_def)

lemma logger_write_out: "logger (snd (write_out e out_path d s)) = logger s"
  by (simp add: write_out_def Let_def split: option.splits prod.splits)

lemma search_table_write_out: "search_table (snd (write_out e out_path d s)) = search_table s"
  by (simp add: write_out_def Let_def split: option.splits prod.splits)

lemma write_out_None: "write_out e None d s = (None, s)"
  by (simp add: write_out_def)

lemma post_filter_write:
  "post_filter e st out_path s d =
     (case http_server st (search_table s) of
        Inl err \<Rightarrow> (Inl err, s)
      | Inr tbl \<Rightarrow>
          (case token_substitution e tbl d of
             Inl err \<Rightarrow> (Inl err, s\<lparr>search_table := tbl\<rparr>)
           | Inr d1 \<Rightarrow>
               ((case fst (write_out e out_path (trim_leading d1) (s\<lparr>search_table := tbl\<rparr>)) of
                   Some err \<Rightarrow> Inl err
                 | None \<Rightarrow> Inr (trim_leading d1)),
                snd (write_out e out_path (trim_leading d1) (s\<lparr>search_table := tbl\<rparr>)))))"
  by (simp add: post_filter_def Let_def split: sum.splits option.splits prod.splits)

lemma logger_post_filter: "logger (snd (post_filter e st out_path s d)) = logger s"
  by (simp add: post_filter_write logger_write_out split: sum.splits)

lemma finditer_placeholder: "finditer jinja2_placeholder = []"
  by (simp add: jinja2_placeholder_def startswith_def)

lemma trim_placeholder: "trim_leading jinja2_placeholder = jinja2_placeholder"
  by (simp add: jinja2_placeholder_def startswith_def trim_leading_def)

lemma render_engine:
  assumes "template_type \<in> {''default'', ''jinja2'', ''cheetah''}"
    and "directive (default_type st template_type) (read_input data_input) = (tt, raw)"
    and "run_engine e st s tt raw = Inr (res, s1)"
  shows "render e st s data_input out_path template_type =
           (case res of Inl err \<Rightarrow> (Inl err, s1)
                      | Inr x \<Rightarrow> post_filter e st out_path s1 x)"
proof -
  have "\<not> template_type \<notin> {''default'', ''jinja2'', ''cheetah''}"
    using assms(1) by blast
  then show ?thesis
    unfolding render_def Let_def using assms(2,3) by (simp only: if_False split: sum.splits) simp
qed

section \<open>The leading-newline trim\<close>

text \<open>
  C3. The comment on lines 152--154 announces the removal of leading newlines, and the
  step is guarded by \<open>startswith("\n")\<close>; but what it calls is \<open>lstrip()\<close> without an
  argument, which removes every leading white-space character. On the engine output
  \<open>"\n  foo"\<close> the two spaces that indent the first line are removed with the newline.
\<close>

theorem trim_leading_removes_indentation:
  "trim_leading ''\<newline>  foo'' = ''foo''"
  by (simp add: trim_leading_def startswith_def lstrip_def is_space_def)

text \<open>The example of the specification holds, and a text that does not start with a
  newline is returned as it is, also when a newline follows a leading space.\<close>

lemma trim_leading_examples:
  "trim_leading ''\<newline>\<newline>foo\<newline>\<newline>bar'' = ''foo\<newline>\<newline>bar''"
  "trim_leading '' \<newline>foo'' = '' \<newline>foo''"
  by (simp_all add: trim_leading_def lstrip_def is_space_def)

lemma trim_leading_unchanged:
  "\<not> startswith data_out ''\<newline>'' \<Longrightarrow> trim_leading data_out = data_out"
  by (simp add: trim_leading_def)

section \<open>The Jinja2 engine degrades\<close>

lemma fst_write_out: "fst (write_out e out_path d s) = fst (write_out e out_path d s')"
  by (simp add: write_out_def Let_def split: option.splits prod.splits)

lemma post_filter_no_settings:
  "post_filter e None out_path s d = (Inl (AttributeError ''server''), s)"
  by (simp add: post_filter_def http_server_def)

lemma post_filter_placeholder:
  "fst (post_filter e (Some cfg) out_path s jinja2_placeholder) =
     (case fst (write_out e out_path jinja2_placeholder s) of
        None \<Rightarrow> Inr jinja2_placeholder
      | Some err \<Rightarrow> Inl err)"
proof -
  obtain tbl where tbl: "http_server (Some cfg) (search_table s) = Inr tbl"
    by (simp add: http_server_def Let_def)
  have "fst (write_out e out_path jinja2_placeholder (s\<lparr>search_table := tbl\<rparr>))
          = fst (write_out e out_path jinja2_placeholder s)"
    by (rule fst_write_out)
  then show ?thesis
    by (simp add: post_filter_write tbl token_substitution_def finditer_placeholder
        set_order_Nil trim_placeholder split: option.splits)
qed

text \<open>
  C6, as the code has it. When the Jinja2 library raises while the template is built or
  rendered, \<open>render_jinja2\<close> raises nothing: it logs two warnings (the fixed one and the
  text of the exception) and returns the placeholder. A \<open>render\<close> that reached it, on a
  Templar with settings, has logged the same warnings and goes on with the placeholder
  to the end of the pipeline: it returns the placeholder when no output path is given
  or the output is written, and what it raises otherwise is the exception of the
  write (whether the write raises depends on the environment, the path and the text,
  not on the state). The exception of the library reaches the caller in no case.
\<close>

theorem render_jinja2_degrades:
  assumes "jinja2_render e (jinja2_loader st) raw_data (search_table s) = Inl exc"
  shows "render_jinja2 e st s raw_data =
           (Inr jinja2_placeholder,
            s\<lparr>logger := logger s @
                 [Warning ''errors were encountered rendering the template'', Warning exc]\<rparr>)
         \<and> (template_type \<in> {''default'', ''jinja2'', ''cheetah''}
            \<and> directive (default_type st template_type) (read_input data_input)
                = (''jinja2'', raw_data)
            \<and> jinja2_available e \<and> st \<noteq> None
            \<longrightarrow> fst (render e st s data_input out_path template_type) =
                  (case fst (write_out e out_path jinja2_placeholder s) of
                     None \<Rightarrow> Inr jinja2_placeholder
                   | Some err \<Rightarrow> Inl err)
              \<and> fst (render e st s data_input None template_type) = Inr jinja2_placeholder
              \<and> logger (snd (render e st s data_input out_path template_type)) =
                  logger s @
                  [Warning ''errors were encountered rendering the template'', Warning exc])"
proof (intro conjI impI)
  show r: "render_jinja2 e st s raw_data =
           (Inr jinja2_placeholder,
            s\<lparr>logger := logger s @
                 [Warning ''errors were encountered rendering the template'', Warning exc]\<rparr>)"
    using assms by (simp add: render_jinja2_def)
  assume a: "template_type \<in> {''default'', ''jinja2'', ''cheetah''}
            \<and> directive (default_type st template_type) (read_input data_input)
                = (''jinja2'', raw_data)
            \<and> jinja2_available e \<and> st \<noteq> None"
  then obtain cfg where cfg: "st = Some cfg" by auto
  have eq: "\<And>p. render e st s data_input p template_type =
          post_filter e st p
            (s\<lparr>logger := logger s @
                 [Warning ''errors were encountered rendering the template'', Warning exc]\<rparr>)
            jinja2_placeholder"
    using a r by (simp add: render_def run_engine_def)
  have w: "fst (write_out e out_path jinja2_placeholder
                 (s\<lparr>logger := logger s @
                    [Warning ''errors were encountered rendering the template'', Warning exc]\<rparr>))
             = fst (write_out e out_path jinja2_placeholder s)"
    by (rule fst_write_out)
  show "fst (render e st s data_input out_path template_type) =
          (case fst (write_out e out_path jinja2_placeholder s) of
             None \<Rightarrow> Inr jinja2_placeholder
           | Some err \<Rightarrow> Inl err)"
    by (subst eq) (simp add: cfg post_filter_placeholder w)
  show "fst (render e st s data_input None template_type) = Inr jinja2_placeholder"
    by (subst eq) (simp add: cfg post_filter_placeholder write_out_None)
  show "logger (snd (render e st s data_input out_path template_type)) =
          logger s @ [Warning ''errors were encountered rendering the template'', Warning exc]"
    by (simp add: eq logger_post_filter)
qed

lemma directive_jinja2_example:
  "directive ''cheetah'' ''#template=jinja2\<newline>{{'' = (''jinja2'', ''{{'')"
  by (simp add: directive_def startswith_def lower_def lower_char_def strip_def is_space_def)

lemma write_out_examples:
  "write_out example_env (Some ''/srv/out.cfg'') d (example_state tbl) =
     (None, example_state tbl\<lparr>dirs := [''/srv''], files := [(''/srv/out.cfg'', d)]\<rparr>)"
  "write_out example_env (Some ''/'') d (example_state tbl) =
     (Some (OSError ''/''), example_state tbl\<lparr>dirs := [''/'']\<rparr>)"
  by (simp_all add: write_out_def open_out_def dirname_def example_env_def example_state_def)

theorem render_jinja2_degrades_witness:
  "jinja2_render example_env (jinja2_loader (Some example_settings)) ''{{''
     (search_table (example_state [])) = Inl ''unexpected end of template''
   \<and> render_jinja2 example_env (Some example_settings) (example_state []) ''{{'' =
       (Inr jinja2_placeholder,
        example_state []\<lparr>logger :=
          [Warning ''errors were encountered rendering the template'',
           Warning ''unexpected end of template'']\<rparr>)
   \<and> fst (render example_env (Some example_settings) (example_state [])
            (Str ''#template=jinja2\<newline>{{'') (Some ''/srv/out.cfg'') ''cheetah'')
       = Inr jinja2_placeholder
   \<and> logger (snd (render example_env (Some example_settings) (example_state [])
            (Str ''#template=jinja2\<newline>{{'') (Some ''/srv/out.cfg'') ''cheetah''))
       = [Warning ''errors were encountered rendering the template'',
          Warning ''unexpected end of template'']"
proof -
  have h: "jinja2_render example_env (jinja2_loader (Some example_settings)) ''{{''
     (search_table (example_state [])) = Inl ''unexpected end of template''"
    by (simp add: example_env_def)
  have d: "directive (default_type (Some example_settings) ''cheetah'')
             (read_input (Str ''#template=jinja2\<newline>{{'')) = (''jinja2'', ''{{'')"
    by (simp add: default_type_def read_input_def directive_jinja2_example)
  have a: "jinja2_available example_env" by (simp add: example_env_def)
  have w: "fst (write_out example_env (Some ''/srv/out.cfg'') jinja2_placeholder
             (example_state [])) = None"
    by (simp add: write_out_examples)
  have l: "logger (example_state []) = []" by (simp add: example_state_def)
  show ?thesis
    using h d a
      render_jinja2_degrades [OF h, of "''cheetah''" "Str ''#template=jinja2\<newline>{{''"
        "Some ''/srv/out.cfg''"]
    by (simp add: w l)
qed

text \<open>
  C6, as stated, fails where the output cannot be written: nothing on lines 157--160
  catches what \<open>utils.mkdir\<close>, \<open>open\<close> or \<open>write\<close> raise. With the output path \<open>/\<close>,
  which names a directory, \<open>open\<close> raises; the failed Jinja2 template has been replaced
  by the placeholder and the warnings are logged, but the \<open>render\<close> returns no text
  and the caller gets the \<open>OSError\<close>.
\<close>

theorem render_jinja2_write_error:
  "jinja2_render example_env (jinja2_loader (Some example_settings)) ''{{''
     (search_table (example_state [])) = Inl ''unexpected end of template''
   \<and> render example_env (Some example_settings) (example_state [])
        (Str ''{{'') (Some ''/'') ''jinja2''
     = (Inl (OSError ''/''),
        example_state [(''http_server'', VStr ''h1'')]
          \<lparr>logger := [Warning ''errors were encountered rendering the template'',
                      Warning ''unexpected end of template''],
           dirs := [''/'']\<rparr>)"
proof
  show "jinja2_render example_env (jinja2_loader (Some example_settings)) ''{{''
     (search_table (example_state [])) = Inl ''unexpected end of template''"
    by (simp add: example_env_def)
  have d: "directive (default_type (Some example_settings) ''jinja2'') (read_input (Str ''{{''))
             = (''jinja2'', ''{{'')"
    by (simp add: directive_def default_type_def read_input_def)
  have eng: "run_engine example_env (Some example_settings) (example_state []) ''jinja2'' ''{{''
               = Inr (Inr jinja2_placeholder,
                      example_state []\<lparr>logger :=
                        [Warning ''errors were encountered rendering the template'',
                         Warning ''unexpected end of template'']\<rparr>)"
    by (simp add: run_engine_def render_jinja2_def example_env_def example_state_def)
  have hs: "http_server (Some example_settings) [] = Inr [(''http_server'', VStr ''h1'')]"
    by (simp add: http_server_def dict_get_def example_settings_def)
  have w: "write_out example_env (Some ''/'') jinja2_placeholder
             (example_state [(''http_server'', VStr ''h1'')]) =
           (Some (OSError ''/''), example_state [(''http_server'', VStr ''h1'')]\<lparr>dirs := [''/'']\<rparr>)"
    by (rule write_out_examples)
  have pf: "post_filter example_env (Some example_settings) (Some ''/'')
              (example_state []\<lparr>logger :=
                        [Warning ''errors were encountered rendering the template'',
                         Warning ''unexpected end of template'']\<rparr>) jinja2_placeholder
            = (Inl (OSError ''/''),
               example_state [(''http_server'', VStr ''h1'')]
                 \<lparr>logger := [Warning ''errors were encountered rendering the template'',
                             Warning ''unexpected end of template''],
                  dirs := [''/'']\<rparr>)"
    using w
    by (simp add: post_filter_def example_state_def hs token_substitution_def
        finditer_placeholder set_order_Nil trim_placeholder write_out_def open_out_def
        dirname_def example_env_def)
  show "render example_env (Some example_settings) (example_state [])
        (Str ''{{'') (Some ''/'') ''jinja2''
     = (Inl (OSError ''/''),
        example_state [(''http_server'', VStr ''h1'')]
          \<lparr>logger := [Warning ''errors were encountered rendering the template'',
                      Warning ''unexpected end of template''],
           dirs := [''/'']\<rparr>)"
    using render_engine [OF _ d eng, of "Some ''/''"] by (simp add: pf)
qed

section \<open>The import whitelist\<close>

lemma check_lines_rejects:
  assumes "line \<in> set lines" "find_str line ''#import'' \<noteq> - 1"
    "import_rest line \<notin> set (cheetah_import_whitelist cfg)"
  shows "\<exists>l \<in> set lines. find_str l ''#import'' \<noteq> - 1
           \<and> import_rest l \<notin> set (cheetah_import_whitelist cfg)
           \<and> check_lines (Some cfg) lines =
               Inl (CX (''potentially insecure import in template: '' @ import_rest l))"
  using assms
proof (induction lines)
  case Nil
  then show ?case by simp
next
  case (Cons a lines)
  show ?case
  proof (cases "find_str a ''#import'' \<noteq> - 1
                 \<and> import_rest a \<notin> set (cheetah_import_whitelist cfg)")
    case True
    then show ?thesis by (auto simp: Let_def)
  next
    case False
    then have "line \<noteq> a" using Cons.prems by auto
    then have "line \<in> set lines" using Cons.prems by simp
    from Cons.IH [OF this Cons.prems(2,3)] obtain l where
      l: "l \<in> set lines" "find_str l ''#import'' \<noteq> - 1"
         "import_rest l \<notin> set (cheetah_import_whitelist cfg)"
         "check_lines (Some cfg) lines =
               Inl (CX (''potentially insecure import in template: '' @ import_rest l))"
      by blast
    have "check_lines (Some cfg) (a # lines) = check_lines (Some cfg) lines"
      using False by (auto simp: Let_def)
    with l show ?thesis by auto
  qed
qed

text \<open>
  C1. On a Templar with settings, a template one of whose lines contains \<open>#import\<close>
  with a target (the line without the marker and without spaces, stripped) that the
  whitelist does not list makes \<open>render_cheetah\<close> raise \<open>CX\<close> for such a line. This
  holds whatever the macro file and the Cheetah library do, and the state is the one the
  call started with: nothing was compiled, run, logged, stored or written. A \<open>render\<close>
  that resolves to the Cheetah engine with this source raises the same exception.
\<close>

theorem insecure_import_rejected:
  assumes "line \<in> set (split raw_data CHR 0x0A)"
    and "find_str line ''#import'' \<noteq> - 1"
    and "import_rest line \<notin> set (cheetah_import_whitelist cfg)"
  shows "\<exists>l \<in> set (split raw_data CHR 0x0A).
           find_str l ''#import'' \<noteq> - 1
           \<and> import_rest l \<notin> set (cheetah_import_whitelist cfg)
           \<and> render_cheetah e (Some cfg) s raw_data =
               (Inl (CX (''potentially insecure import in template: '' @ import_rest l)), s)
           \<and> (template_type \<in> {''default'', ''jinja2'', ''cheetah''}
              \<and> directive (default_type (Some cfg) template_type) (read_input data_input)
                  = (''cheetah'', raw_data)
              \<longrightarrow> render e (Some cfg) s data_input out_path template_type =
                    (Inl (CX (''potentially insecure import in template: '' @ import_rest l)), s))"
proof -
  from check_lines_rejects [OF assms] obtain l where
    l: "l \<in> set (split raw_data CHR 0x0A)" "find_str l ''#import'' \<noteq> - 1"
       "import_rest l \<notin> set (cheetah_import_whitelist cfg)"
       "check_lines (Some cfg) (split raw_data CHR 0x0A) =
          Inl (CX (''potentially insecure import in template: '' @ import_rest l))"
    by blast
  have rc: "render_cheetah e (Some cfg) s raw_data =
          (Inl (CX (''potentially insecure import in template: '' @ import_rest l)), s)"
    using l(4) by (simp add: render_cheetah_def cheetah_source_def check_for_invalid_imports_def)
  have "template_type \<in> {''default'', ''jinja2'', ''cheetah''}
              \<and> directive (default_type (Some cfg) template_type) (read_input data_input)
                  = (''cheetah'', raw_data)
              \<longrightarrow> render e (Some cfg) s data_input out_path template_type =
                    (Inl (CX (''potentially insecure import in template: '' @ import_rest l)), s)"
    using rc by (simp add: render_def run_engine_def)
  with l(1-3) rc show ?thesis by blast
qed

lemma split_import_example:
  "split ''hello\<newline>#import os'' CHR 0x0A = [''hello'', ''#import os'']"
  by simp

lemma import_rest_example: "import_rest ''#import os'' = ''os''"
  by (simp add: import_rest_def replace_def startswith_def strip_def is_space_def)

lemma find_import_example:
  "find_str ''#import os'' ''#import'' = 0" "find_str ''hello'' ''#import'' = - 1"
  by simp_all

theorem insecure_import_rejected_witness:
  "''#import os'' \<in> set (split ''hello\<newline>#import os'' CHR 0x0A)
   \<and> find_str ''#import os'' ''#import'' \<noteq> - 1
   \<and> import_rest ''#import os'' \<notin> set (cheetah_import_whitelist example_settings)
   \<and> render_cheetah example_env (Some example_settings) (example_state [])
        ''hello\<newline>#import os'' =
       (Inl (CX ''potentially insecure import in template: os''), example_state [])"
proof -
  have h1: "''#import os'' \<in> set (split ''hello\<newline>#import os'' CHR 0x0A)"
    by (simp add: split_import_example)
  have h2: "find_str ''#import os'' ''#import'' \<noteq> - 1"
    unfolding find_import_example by simp
  have h3: "import_rest ''#import os'' \<notin> set (cheetah_import_whitelist example_settings)"
    by (simp add: import_rest_example example_settings_def)
  from insecure_import_rejected [OF h1 h2 h3, where e = example_env and s = "example_state []"]
  obtain l where l: "l \<in> set (split ''hello\<newline>#import os'' CHR 0x0A)"
      "find_str l ''#import'' \<noteq> - 1"
      "render_cheetah example_env (Some example_settings) (example_state [])
         ''hello\<newline>#import os'' =
       (Inl (CX (''potentially insecure import in template: '' @ import_rest l)), example_state [])"
    by blast
  from l(1,2) have "l = ''#import os''"
    by (auto simp: split_import_example find_import_example)
  with l(3) h1 h2 h3 show ?thesis
    by (simp add: import_rest_example)
qed

section \<open>The universe entry\<close>

lemma universe_cheetah_run:
  "map_of (search_table (snd (cheetah_run e s src))) ''template_universe''
     = Some (VDict (search_table s))"
  by (simp add: cheetah_run_def Let_def update_Some_unfold split: option.splits sum.splits prod.splits)

lemma universe_post_filter:
  "map_of (search_table (snd (post_filter e st out_path s d))) ''template_universe''
     = map_of (search_table s) ''template_universe''"
  by (auto simp add: post_filter_write http_server_def Let_def search_table_write_out
      update_conv' split: option.splits sum.splits)

text \<open>
  C10. Once the source has passed the import check and the NFS rewrite,
  \<open>render_cheetah\<close> stores under \<open>template_universe\<close> a dictionary with exactly the
  entries the caller's dictionary had when the call began, whether or not the run then
  succeeds; and so it is at the end of a \<open>render\<close> that resolved to the Cheetah engine,
  after \<open>http_server\<close> was stored. The snapshot therefore has a \<open>template_universe\<close> or
  an \<open>http_server\<close> entry only when the caller's dictionary had one.
\<close>

theorem template_universe_snapshot:
  assumes "cheetah_source st (search_table s) raw_data = Inr src"
  shows "map_of (search_table (snd (render_cheetah e st s raw_data))) ''template_universe''
           = Some (VDict (search_table s))
         \<and> (template_type \<in> {''default'', ''jinja2'', ''cheetah''}
            \<and> directive (default_type st template_type) (read_input data_input)
                = (''cheetah'', raw_data)
            \<longrightarrow> map_of (search_table (snd (render e st s data_input out_path template_type)))
                  ''template_universe''
                = Some (VDict (search_table s)))"
proof (intro conjI impI)
  have rc: "render_cheetah e st s raw_data = cheetah_run e s src"
    using assms by (simp add: render_cheetah_def)
  show u: "map_of (search_table (snd (render_cheetah e st s raw_data))) ''template_universe''
           = Some (VDict (search_table s))"
    by (simp add: rc universe_cheetah_run)
  assume a: "template_type \<in> {''default'', ''jinja2'', ''cheetah''}
            \<and> directive (default_type st template_type) (read_input data_input)
                = (''cheetah'', raw_data)"
  obtain r s1 where r: "render_cheetah e st s raw_data = (r, s1)" by (cases "render_cheetah e st s raw_data")
  with u have s1: "map_of (search_table s1) ''template_universe'' = Some (VDict (search_table s))"
    by simp
  show "map_of (search_table (snd (render e st s data_input out_path template_type)))
                  ''template_universe''
                = Some (VDict (search_table s))"
  proof (cases r)
    case (Inl err)
    then show ?thesis using a r s1 by (simp add: render_def run_engine_def)
  next
    case (Inr data_out)
    then have "render e st s data_input out_path template_type
                 = post_filter e st out_path s1 data_out"
      using a r by (simp add: render_def run_engine_def)
    then show ?thesis by (simp add: universe_post_filter s1)
  qed
qed

lemma cheetah_source_example:
  "cheetah_source (Some example_settings) [(''server'', VStr ''h2'')] ''hello'' =
     Inr ''#errorCatcher ListErrors\<newline>hello''"
  by (simp add: cheetah_source_def check_for_invalid_imports_def startswith_def
      replace_def nfs_rewrite_def)

theorem template_universe_snapshot_witness:
  "cheetah_source (Some example_settings) (search_table (example_state [(''server'', VStr ''h2'')]))
      ''hello'' = Inr ''#errorCatcher ListErrors\<newline>hello''
   \<and> map_of (search_table (snd (render example_env (Some example_settings)
                 (example_state [(''server'', VStr ''h2'')]) (Str ''hello'') None ''default'')))
        ''template_universe'' = Some (VDict [(''server'', VStr ''h2'')])"
proof -
  have h: "cheetah_source (Some example_settings)
             (search_table (example_state [(''server'', VStr ''h2'')])) ''hello''
           = Inr ''#errorCatcher ListErrors\<newline>hello''"
    by (simp add: example_state_def cheetah_source_example)
  have d: "directive (default_type (Some example_settings) ''default'') (read_input (Str ''hello''))
           = (''cheetah'', ''hello'')"
    by (simp add: default_type_def example_settings_def read_input_def directive_def startswith_def)
  show ?thesis
    using h d template_universe_snapshot [OF h, where template_type = "''default''"
        and data_input = "Str ''hello''" and e = example_env and out_path = None]
    by (simp add: example_state_def)
qed

section \<open>The \<open>http_server\<close> entry\<close>

lemma table_cheetah_run:
  "k \<noteq> ''template_universe'' \<Longrightarrow>
   map_of (search_table (snd (cheetah_run e s src))) k = map_of (search_table s) k"
  by (simp add: cheetah_run_def Let_def update_conv' split: option.splits sum.splits prod.splits)

lemma table_render_cheetah:
  "k \<noteq> ''template_universe'' \<Longrightarrow>
   map_of (search_table (snd (render_cheetah e st s raw))) k = map_of (search_table s) k"
  by (simp add: render_cheetah_def table_cheetah_run split: sum.splits)

lemma table_render_jinja2: "search_table (snd (render_jinja2 e st s raw)) = search_table s"
  by (simp add: render_jinja2_def split: sum.splits)

lemma post_filter_http_server:
  assumes "post_filter e st out_path s data_out = (Inr out, s')"
  shows "\<exists>cfg. st = Some cfg \<and>
     map_of (search_table s') ''http_server'' =
       Some (let hp = dict_get (search_table s) ''http_port'' (VStr ''80'');
                 srv = dict_get (search_table s) ''server'' (VStr (server cfg))
             in if hp \<noteq> VInt 80 \<and> hp \<noteq> VStr ''80''
                then VStr (py_str srv @ '':'' @ py_str hp) else srv)"
proof (cases st)
  case None
  then show ?thesis using assms by (simp add: post_filter_def http_server_def)
next
  case (Some cfg)
  obtain tbl where tbl: "http_server st (search_table s) = Inr tbl"
    using Some by (simp add: http_server_def Let_def)
  have s': "search_table s' = tbl"
    using assms tbl
    by (auto simp add: post_filter_write search_table_write_out split: sum.splits option.splits)
  show ?thesis
    using tbl Some unfolding s' by (auto simp add: http_server_def Let_def update_Some_unfold)
qed

text \<open>
  C5. A \<open>render\<close> that ran an engine (the selector is a known one and the resolved type
  is \<open>cheetah\<close>, or \<open>jinja2\<close> with the library present) and returned text was made on a
  Templar with settings and leaves in the caller's dictionary, under \<open>http_server\<close>: with
  the port the caller's \<open>http_port\<close> (else the string \<open>80\<close>) and the server the caller's
  \<open>server\<close> (else the configured one), the string \<open>server:port\<close> when the port is
  neither the number 80 nor the string \<open>80\<close>, and the server itself otherwise.
\<close>

theorem http_server_after_render:
  assumes "render e st s data_input out_path template_type = (Inr data_out, s')"
    and "template_type \<in> {''default'', ''jinja2'', ''cheetah''}"
    and "fst (directive (default_type st template_type) (read_input data_input)) = ''cheetah''
         \<or> fst (directive (default_type st template_type) (read_input data_input)) = ''jinja2''
           \<and> jinja2_available e"
  shows "\<exists>cfg. st = Some cfg \<and>
     map_of (search_table s') ''http_server'' =
       Some (let hp = dict_get (search_table s) ''http_port'' (VStr ''80'');
                 srv = dict_get (search_table s) ''server'' (VStr (server cfg))
             in if hp \<noteq> VInt 80 \<and> hp \<noteq> VStr ''80''
                then VStr (py_str srv @ '':'' @ py_str hp) else srv)"
proof -
  obtain tt raw where d: "directive (default_type st template_type) (read_input data_input) = (tt, raw)"
    by (cases "directive (default_type st template_type) (read_input data_input)")
  define r where "r = (if tt = ''cheetah'' then render_cheetah e st s raw else render_jinja2 e st s raw)"
  have eng: "run_engine e st s tt raw = Inr r"
    using assms(3) d by (auto simp: run_engine_def r_def)
  have keys: "map_of (search_table (snd r)) ''http_port'' = map_of (search_table s) ''http_port''"
             "map_of (search_table (snd r)) ''server'' = map_of (search_table s) ''server''"
    by (simp_all add: r_def table_render_cheetah table_render_jinja2)
  obtain res s1 where r: "r = (res, s1)" by (cases r)
  have "\<exists>out1. res = Inr out1 \<and> post_filter e st out_path s1 out1 = (Inr data_out, s')"
    using assms(1) render_engine [OF assms(2) d eng [unfolded r], of out_path]
    by (cases res) simp_all
  then obtain out1 where pf: "post_filter e st out_path s1 out1 = (Inr data_out, s')" by blast
  from post_filter_http_server [OF pf] obtain cfg where cfg: "st = Some cfg"
    "map_of (search_table s') ''http_server'' =
       Some (let hp = dict_get (search_table s1) ''http_port'' (VStr ''80'');
                 srv = dict_get (search_table s1) ''server'' (VStr (server cfg))
             in if hp \<noteq> VInt 80 \<and> hp \<noteq> VStr ''80''
                then VStr (py_str srv @ '':'' @ py_str hp) else srv)"
    by blast
  have "dict_get (search_table s1) ''http_port'' (VStr ''80'')
          = dict_get (search_table s) ''http_port'' (VStr ''80'')"
       "dict_get (search_table s1) ''server'' (VStr (server cfg))
          = dict_get (search_table s) ''server'' (VStr (server cfg))"
    using keys r by (simp_all add: dict_get_def)
  with cfg show ?thesis by simp
qed

lemma str_int_8080: "str_int 8080 = ''8080''"
  by (simp add: str_int_def digit_char_def)

lemma http_server_examples:
  "http_server (Some example_settings) [(''server'', VStr ''h1'')]
     = Inr [(''server'', VStr ''h1''), (''http_server'', VStr ''h1'')]"
  "http_server (Some example_settings) [(''server'', VStr ''h1''), (''http_port'', VInt 8080)]
     = Inr [(''server'', VStr ''h1''), (''http_port'', VInt 8080),
            (''http_server'', VStr ''h1:8080'')]"
  "http_server (Some example_settings) [(''server'', VStr ''h1''), (''http_port'', VStr ''80'')]
     = Inr [(''server'', VStr ''h1''), (''http_port'', VStr ''80''),
            (''http_server'', VStr ''h1'')]"
  by (simp_all add: http_server_def dict_get_def py_str_def str_int_8080 Let_def)

lemma render_jinja2_hello:
  "render example_env (Some example_settings)
     (example_state [(''server'', VStr ''h1''), (''http_port'', VInt 8080)])
     (Str ''hello'') None ''jinja2''
   = (Inr ''hello'',
      example_state [(''server'', VStr ''h1''), (''http_port'', VInt 8080),
                     (''http_server'', VStr ''h1:8080'')])"
  by (simp add: render_def read_input_def default_type_def directive_def run_engine_def
      render_jinja2_def example_env_def example_state_def post_filter_def http_server_examples
      token_substitution_def set_order_def trim_leading_def write_out_def)

theorem http_server_after_render_witness:
  "render example_env (Some example_settings)
     (example_state [(''server'', VStr ''h1''), (''http_port'', VInt 8080)])
     (Str ''hello'') None ''jinja2''
   = (Inr ''hello'',
      example_state [(''server'', VStr ''h1''), (''http_port'', VInt 8080),
                     (''http_server'', VStr ''h1:8080'')])
   \<and> map_of [(''server'', VStr ''h1''), (''http_port'', VInt 8080),
              (''http_server'', VStr ''h1:8080'')] ''http_server''
       = Some (VStr ''h1:8080'')"
proof -
  have d: "fst (directive (default_type (Some example_settings) ''jinja2'')
             (read_input (Str ''hello''))) = ''cheetah''
         \<or> fst (directive (default_type (Some example_settings) ''jinja2'')
             (read_input (Str ''hello''))) = ''jinja2'' \<and> jinja2_available example_env"
    by (simp add: default_type_def read_input_def directive_def example_env_def)
  have t: "''jinja2'' \<in> {''default'', ''jinja2'', ''cheetah''}" by simp
  show ?thesis
    using http_server_after_render [OF render_jinja2_hello t d]
    by (simp add: render_jinja2_hello)
qed

section \<open>Facts about \<open>find\<close>, \<open>split\<close> and \<open>replace\<close>\<close>

lemma startswith_append_iff: "startswith s p \<longleftrightarrow> (\<exists>r. s = p @ r)"
proof
  assume "startswith s p"
  then have "s = p @ drop (length p) s"
    by (metis append_take_drop_id startswith_def)
  then show "\<exists>r. s = p @ r" ..
next
  assume "\<exists>r. s = p @ r"
  then show "startswith s p" by (auto simp: startswith_def)
qed

lemma find_str_ge: "- 1 \<le> find_str s sub"
  by (induction s) (auto simp: Let_def)

lemma find_str_Cons_no_prefix:
  "\<not> startswith (c # cs) sub \<Longrightarrow> find_str (c # cs) sub \<noteq> - 1 \<longleftrightarrow> find_str cs sub \<noteq> - 1"
  using find_str_ge [of cs sub] by (auto simp: Let_def)

lemma find_str_iff: "find_str s sub \<noteq> - 1 \<longleftrightarrow> (\<exists>a b. s = a @ sub @ b)"
proof (induction s)
  case Nil
  then show ?case by auto
next
  case (Cons c cs)
  show ?case
  proof (cases "startswith (c # cs) sub")
    case True
    then obtain r where "c # cs = sub @ r" by (auto simp: startswith_append_iff)
    then have "c # cs = [] @ sub @ r" by simp
    then have "\<exists>a b. c # cs = a @ sub @ b" by blast
    with True show ?thesis by simp
  next
    case False
    have "(\<exists>a b. c # cs = a @ sub @ b) \<longleftrightarrow> (\<exists>a b. cs = a @ sub @ b)"
    proof
      assume "\<exists>a b. c # cs = a @ sub @ b"
      then obtain a b where ab: "c # cs = a @ sub @ b" by blast
      show "\<exists>a b. cs = a @ sub @ b"
      proof (cases a)
        case Nil
        with ab have "startswith (c # cs) sub" by (auto simp: startswith_append_iff)
        with False show ?thesis by simp
      next
        case (Cons x a')
        with ab have "cs = a' @ sub @ b" by simp
        then show ?thesis by blast
      qed
    next
      assume "\<exists>a b. cs = a @ sub @ b"
      then obtain a b where "cs = a @ sub @ b" by blast
      then have "c # cs = (c # a) @ sub @ b" by simp
      then show "\<exists>a b. c # cs = a @ sub @ b" by blast
    qed
    moreover have "find_str (c # cs) sub \<noteq> - 1 \<longleftrightarrow> find_str cs sub \<noteq> - 1"
      using False by (rule find_str_Cons_no_prefix)
    ultimately show ?thesis using Cons.IH by simp
  qed
qed

lemma split_not_Nil [simp]: "split s sep \<noteq> []"
  by (induction s) (auto simp: Let_def)

lemma split_no_sep: "sep \<notin> set s \<Longrightarrow> split s sep = [s]"
  by (induction s) (auto simp: Let_def)

lemma split_max_no_sep: "sep \<notin> set s \<Longrightarrow> split_max s sep n = [s]"
  by (induction s sep n rule: split_max.induct) (auto simp: Let_def)

lemma split_append_no_sep:
  "sep \<notin> set p \<Longrightarrow> split (p @ s) sep = (p @ hd (split s sep)) # tl (split s sep)"
  by (induction p) (auto simp: Let_def)

lemma hd_split_prefix: "\<exists>r. s = hd (split s sep) @ r"
  by (induction s) (auto simp: Let_def)

lemma replace_ne_prefix:
  "old \<noteq> [] \<Longrightarrow> replace_ne old new (old @ r) = new @ replace_ne old new r"
  by (cases old) (auto simp: startswith_def)

lemma replace_ne_Cons_else:
  "\<not> (old \<noteq> [] \<and> startswith (c # cs) old) \<Longrightarrow>
   replace_ne old new (c # cs) = c # replace_ne old new cs"
  by (cases "old = []") auto

lemma replace_ne_no_prefix:
  "\<not> startswith (c # cs) old \<Longrightarrow> replace_ne old new (c # cs) = c # replace_ne old new cs"
  by simp

lemma split_replace_ne:
  assumes "old \<noteq> []" "sep \<notin> set old" "sep \<notin> set new"
  shows "split (replace_ne old new s) sep = map (replace_ne old new) (split s sep)"
  using assms
proof (induction old new s rule: replace_ne.induct)
  case (1 old new)
  then show ?case by simp
next
  case (2 old new c cs)
  show ?case
  proof (cases "startswith (c # cs) old")
    case True
    then obtain r where r: "c # cs = old @ r" by (auto simp: startswith_append_iff)
    then have dr: "drop (length old) (c # cs) = r" by (metis append_eq_conv_conj)
    have ih: "split (replace_ne old new r) sep = map (replace_ne old new) (split r sep)"
      using "2.IH"(1) "2.prems" True dr by simp
    have "split (replace_ne old new (c # cs)) sep = split (new @ replace_ne old new r) sep"
      unfolding r using "2.prems"(1) by (simp add: replace_ne_prefix)
    also have "\<dots> = (new @ hd (split (replace_ne old new r) sep))
                        # tl (split (replace_ne old new r) sep)"
      using "2.prems"(3) by (rule split_append_no_sep)
    also have "\<dots> = (new @ replace_ne old new (hd (split r sep)))
                        # map (replace_ne old new) (tl (split r sep))"
      by (simp add: ih hd_map map_tl)
    also have "\<dots> = map (replace_ne old new) ((old @ hd (split r sep)) # tl (split r sep))"
      using "2.prems"(1) by (simp add: replace_ne_prefix)
    also have "\<dots> = map (replace_ne old new) (split (c # cs) sep)"
      unfolding r using "2.prems"(2) by (simp add: split_append_no_sep)
    finally show ?thesis .
  next
    case False
    have ih: "split (replace_ne old new cs) sep = map (replace_ne old new) (split cs sep)"
      using "2.IH"(2) "2.prems" False by simp
    show ?thesis
    proof (cases "c = sep")
      case True
      then show ?thesis using False ih by simp
    next
      case csep: False
      obtain r where r: "cs = hd (split cs sep) @ r" using hd_split_prefix by blast
      have "\<not> startswith (c # hd (split cs sep)) old"
      proof
        assume "startswith (c # hd (split cs sep)) old"
        then obtain q where "c # hd (split cs sep) = old @ q" by (auto simp: startswith_append_iff)
        then have "c # cs = old @ q @ r" using r by (metis append_Cons append_assoc)
        then have "startswith (c # cs) old" by (auto simp only: startswith_append_iff)
        with False show False by simp
      qed
      then have "replace_ne old new (c # hd (split cs sep))
                  = c # replace_ne old new (hd (split cs sep))"
        by (rule replace_ne_no_prefix)
      then show ?thesis using False csep ih by (simp add: Let_def hd_map map_tl)
    qed
  qed
qed


lemma replace_ne_skip:
  "set m \<inter> set old = {} \<Longrightarrow> replace_ne old new (m @ b) = m @ replace_ne old new b"
proof (induction m)
  case Nil
  then show ?case by simp
next
  case (Cons x m)
  have "\<not> (old \<noteq> [] \<and> startswith (x # m @ b) old)"
  proof
    assume a: "old \<noteq> [] \<and> startswith (x # m @ b) old"
    then obtain y ys where old: "old = y # ys" by (cases old) auto
    with a have "y = x" by simp
    with old Cons.prems show False by auto
  qed
  then have "replace_ne old new ((x # m) @ b) = x # replace_ne old new (m @ b)"
    using replace_ne_Cons_else [of old x "m @ b" new] by simp
  with Cons show ?case by simp
qed

lemma startswith_append_disjoint:
  assumes "set m \<inter> set old = {}" "m \<noteq> []"
  shows "startswith (a @ m @ b) old \<longleftrightarrow> startswith a old"
proof
  assume "startswith a old"
  then show "startswith (a @ m @ b) old" by (auto simp: startswith_append_iff)
next
  assume s: "startswith (a @ m @ b) old"
  show "startswith a old"
  proof (cases "length old \<le> length a")
    case True
    then show ?thesis using s by (simp add: startswith_def)
  next
    case False
    from s have "old = take (length old) (a @ m @ b)" by (simp add: startswith_def)
    then have "old ! length a = (a @ m @ b) ! length a" using False by (metis not_le nth_take)
    also have "\<dots> = hd m" using assms(2) by (simp add: nth_append hd_conv_nth)
    finally have "hd m \<in> set old" using False by (metis not_le nth_mem)
    moreover have "hd m \<in> set m" using assms(2) by simp
    ultimately show ?thesis using assms(1) by auto
  qed
qed

lemma replace_ne_append_disjoint:
  assumes "set m \<inter> set old = {}" "m \<noteq> []"
  shows "replace_ne old new (a @ m @ b) = replace_ne old new a @ m @ replace_ne old new b"
  using assms
proof (induction old new a rule: replace_ne.induct)
  case (1 old new)
  then show ?case by (simp add: replace_ne_skip)
next
  case (2 old new c cs)
  have sw: "startswith ((c # cs) @ m @ b) old \<longleftrightarrow> startswith (c # cs) old"
    using "2.prems" by (rule startswith_append_disjoint)
  show ?case
  proof (cases "old \<noteq> [] \<and> startswith (c # cs) old")
    case True
    then obtain r where r: "c # cs = old @ r" by (auto simp: startswith_append_iff)
    then have dr: "drop (length old) (c # cs) = r" by (metis append_eq_conv_conj)
    have ih: "replace_ne old new (r @ m @ b) = replace_ne old new r @ m @ replace_ne old new b"
      using "2.IH"(1) True "2.prems" dr by simp
    have "replace_ne old new ((c # cs) @ m @ b) = replace_ne old new (old @ (r @ m @ b))"
      using r by simp
    also have "\<dots> = new @ replace_ne old new (r @ m @ b)"
      using True by (simp add: replace_ne_prefix)
    also have "\<dots> = (new @ replace_ne old new r) @ m @ replace_ne old new b"
      by (simp add: ih)
    also have "new @ replace_ne old new r = replace_ne old new (c # cs)"
      unfolding r using True by (simp add: replace_ne_prefix)
    finally show ?thesis .
  next
    case False
    then have ih: "replace_ne old new (cs @ m @ b) = replace_ne old new cs @ m @ replace_ne old new b"
      using "2.IH"(2) "2.prems" by simp
    have "\<not> (old \<noteq> [] \<and> startswith (c # (cs @ m @ b)) old)" using False sw by simp
    then have "replace_ne old new (c # (cs @ m @ b)) = c # replace_ne old new (cs @ m @ b)"
      by (rule replace_ne_Cons_else)
    moreover have "replace_ne old new (c # cs) = c # replace_ne old new cs"
      using False by (rule replace_ne_Cons_else)
    ultimately show ?thesis using ih by simp
  qed
qed

lemma replace_ne_prefix_back:
  assumes "set m \<inter> set new = {}" "new \<noteq> []"
  shows "replace_ne old new s = m @ r \<Longrightarrow> \<exists>r'. s = m @ r'"
  using assms(1)
proof (induction m arbitrary: s r)
  case Nil
  then show ?case by simp
next
  case (Cons x m)
  show ?case
  proof (cases s)
    case Nil
    with Cons.prems show ?thesis by simp
  next
    case (Cons c cs)
    show ?thesis
    proof (cases "old \<noteq> [] \<and> startswith (c # cs) old")
      case True
      then have "replace_ne old new s = new @ replace_ne old new (drop (length old) (c # cs))"
        using Cons by simp
      with Cons.prems(1) have "hd new = x" using assms(2) by (cases new) auto
      then have "x \<in> set new" using assms(2) by (cases new) auto
      with Cons.prems(2) show ?thesis by auto
    next
      case False
      then have "replace_ne old new s = c # replace_ne old new cs"
        using Cons replace_ne_Cons_else by simp
      with Cons.prems(1) have cx: "c = x" and rest: "replace_ne old new cs = m @ r" by auto
      have "set m \<inter> set new = {}" using Cons.prems(2) by auto
      from Cons.IH [OF rest this] obtain r' where "cs = m @ r'" by blast
      then show ?thesis using Cons cx by simp
    qed
  qed
qed

lemma replace_ne_infix_back:
  assumes "set m \<inter> set new = {}" "new \<noteq> []" "m \<noteq> []"
  shows "replace_ne old new s = a @ m @ b \<Longrightarrow> \<exists>a' b'. s = a' @ m @ b'"
  using assms
proof (induction old new s arbitrary: a rule: replace_ne.induct)
  case (1 old new)
  then show ?case by simp
next
  case (2 old new c cs)
  show ?case
  proof (cases "old \<noteq> [] \<and> startswith (c # cs) old")
    case True
    then obtain r where r: "c # cs = old @ r" by (auto simp: startswith_append_iff)
    then have dr: "drop (length old) (c # cs) = r" by (metis append_eq_conv_conj)
    have eq: "new @ replace_ne old new r = a @ m @ b"
      using "2.prems"(1) True dr by simp
    then consider us where "new = a @ us" "us @ replace_ne old new r = m @ b"
      | us where "new @ us = a" "replace_ne old new r = us @ m @ b"
      by (auto simp: append_eq_append_conv2)
    then have "\<exists>us. replace_ne old new r = us @ m @ b"
    proof cases
      case 1
      show ?thesis
      proof (cases us)
        case Nil
        with 1 have "replace_ne old new r = [] @ m @ b" by simp
        then show ?thesis by blast
      next
        case (Cons u us')
        with 1(2) "2.prems"(4) have "u = hd m" by (cases m) auto
        then have "u \<in> set m" using "2.prems"(4) by simp
        moreover have "u \<in> set new" using 1(1) Cons by simp
        ultimately show ?thesis using "2.prems"(2) by auto
      qed
    next
      case 2
      then show ?thesis by blast
    qed
    then obtain us where "replace_ne old new r = us @ m @ b" by blast
    then have "replace_ne old new (drop (length old) (c # cs)) = us @ m @ b" using dr by simp
    from "2.IH"(1) [OF True this "2.prems"(2,3,4)] obtain a' b' where "r = a' @ m @ b'"
      using dr by auto
    then have "c # cs = (old @ a') @ m @ b'" using r by simp
    then show ?thesis by blast
  next
    case False
    then have eq: "c # replace_ne old new cs = a @ m @ b"
      using "2.prems"(1) replace_ne_Cons_else [of old c cs new] by simp
    show ?thesis
    proof (cases a)
      case Nil
      then have "replace_ne old new (c # cs) = m @ b" using "2.prems"(1) by simp
      from replace_ne_prefix_back [OF "2.prems"(2,3) this] obtain r' where "c # cs = m @ r'"
        by blast
      then have "c # cs = [] @ m @ r'" by simp
      then show ?thesis by blast
    next
      case (Cons x a'')
      with eq have "replace_ne old new cs = a'' @ m @ b" and "c = x" by auto
      from "2.IH"(2) [OF False this(1) "2.prems"(2,3,4)] obtain a' b' where "cs = a' @ m @ b'"
        by blast
      then have "c # cs = (c # a') @ m @ b'" by simp
      then show ?thesis by blast
    qed
  qed
qed

lemma find_str_replace_ne:
  assumes "set m \<inter> set old = {}" "set m \<inter> set new = {}" "new \<noteq> []" "m \<noteq> []"
  shows "find_str (replace_ne old new s) m \<noteq> - 1 \<longleftrightarrow> find_str s m \<noteq> - 1"
proof -
  have "(\<exists>a b. replace_ne old new s = a @ m @ b) \<longleftrightarrow> (\<exists>a b. s = a @ m @ b)"
  proof
    assume "\<exists>a b. replace_ne old new s = a @ m @ b"
    then show "\<exists>a b. s = a @ m @ b"
      using replace_ne_infix_back [OF assms(2,3,4)] by blast
  next
    assume "\<exists>a b. s = a @ m @ b"
    then obtain a b where "s = a @ m @ b" by blast
    then have "replace_ne old new s = replace_ne old new a @ m @ replace_ne old new b"
      using replace_ne_append_disjoint [OF assms(1,4)] by simp
    then show "\<exists>a b. replace_ne old new s = a @ m @ b" by blast
  qed
  then show ?thesis by (simp only: find_str_iff)
qed

section \<open>The NFS rewrite\<close>

text \<open>The alias substitution of line 176 works line by line and neither makes nor
  removes an occurrence of the two markers.\<close>

lemma replace_alias: "replace s ''TEMPLATE::'' ''$'' = replace_ne ''TEMPLATE::'' ''$'' s"
  by (simp add: replace_def)

lemma split_replace_alias:
  "split (replace raw ''TEMPLATE::'' ''$'') CHR 0x0A
     = map (\<lambda>line. replace line ''TEMPLATE::'' ''$'') (split raw CHR 0x0A)"
  unfolding replace_alias by (rule split_replace_ne) simp_all

lemma markers_replace_alias:
  "find_str (replace line ''TEMPLATE::'' ''$'') ''--url'' \<noteq> - 1
     \<longleftrightarrow> find_str line ''--url'' \<noteq> - 1"
  "find_str (replace line ''TEMPLATE::'' ''$'') ''url '' \<noteq> - 1
     \<longleftrightarrow> find_str line ''url '' \<noteq> - 1"
  unfolding replace_alias by (rule find_str_replace_ne; simp)+

lemma nfs_loop_ok:
  "\<forall>l \<in> set lines. nfs_line t l = Inr (f l) \<Longrightarrow>
   nfs_loop t acc lines = Inr (acc @ concat (map (\<lambda>l. f l @ [CHR 0x0A]) lines))"
  by (induction lines arbitrary: acc) simp_all

lemma nfs_loop_fail:
  assumes "l \<in> set lines" "nfs_line t l = Inl err"
    and "\<And>l' err'. nfs_line t l' = Inl err' \<Longrightarrow> err' = err"
  shows "nfs_loop t acc lines = Inl err"
  using assms(1,2)
proof (induction lines arbitrary: acc)
  case Nil
  then show ?case by simp
next
  case (Cons a lines)
  show ?case
  proof (cases "nfs_line t a")
    case (Inl err')
    then show ?thesis using assms(3) by simp
  next
    case (Inr line')
    then have "l \<noteq> a" using Cons.prems by auto
    then have "l \<in> set lines" using Cons.prems by simp
    then show ?thesis using Cons.IH Cons.prems(2) Inr by simp
  qed
qed

lemma split_max_myserver:
  "split_max ''myserver:/export/dir'' CHR '':'' 2 = [''myserver'', ''/export/dir'']"
  by (simp add: numeral_2_eq_2)

lemma nfs_line_myserver:
  "nfs_line ''nfs://myserver:/export/dir'' line =
     Inr (if find_str line ''--url'' \<noteq> - 1 \<and> find_str line ''url '' \<noteq> - 1
          then ''nfs --server myserver --dir /export/dir\<newline>#url --url=nfs://myserver:/export/dir''
          else line)"
  by (simp add: nfs_line_def split_max_myserver)

lemma check_lines_result: "check_lines st lines = Inr () \<or> (\<exists>msg. check_lines st lines = Inl (CX msg))"
  by (induction lines) (auto simp: Let_def split: option.splits)

text \<open>
  C8. With \<open>tree\<close> bound to \<open>nfs://myserver:/export/dir\<close> and a template that passes
  the import check, the source that \<open>render_cheetah\<close> compiles and runs is the error
  catcher directive followed by the lines of the template, each with its newline: a line
  that contains both \<open>--url\<close> and \<open>url \<close> has become the line
  \<open>nfs --server myserver --dir /export/dir\<close> followed by the comment line
  \<open>#url --url=nfs://myserver:/export/dir\<close>; any other line is kept, with its aliases
  substituted.
\<close>

theorem nfs_rewrite_lines:
  assumes "map_of (search_table s) ''tree'' = Some (VStr ''nfs://myserver:/export/dir'')"
    and "check_for_invalid_imports st raw_data = Inr ()"
  shows "render_cheetah e st s raw_data =
           cheetah_run e s
             (''#errorCatcher ListErrors\<newline>'' @
              concat (map (\<lambda>line.
                  (if find_str line ''--url'' \<noteq> - 1 \<and> find_str line ''url '' \<noteq> - 1
                   then ''nfs --server myserver --dir /export/dir\<newline>#url --url=nfs://myserver:/export/dir''
                   else replace line ''TEMPLATE::'' ''$'') @ ''\<newline>'')
                (split raw_data CHR 0x0A)))"
proof -
  let ?f = "\<lambda>line.
     if find_str line ''--url'' \<noteq> - 1 \<and> find_str line ''url '' \<noteq> - 1
     then ''nfs --server myserver --dir /export/dir\<newline>#url --url=nfs://myserver:/export/dir''
     else line"
  have "nfs_rewrite (search_table s) (replace raw_data ''TEMPLATE::'' ''$'')
          = nfs_loop ''nfs://myserver:/export/dir'' []
              (split (replace raw_data ''TEMPLATE::'' ''$'') CHR 0x0A)"
    using assms(1) by (simp add: nfs_rewrite_def)
  also have "\<dots> = Inr ([] @ concat (map (\<lambda>l. ?f l @ [CHR 0x0A])
                        (split (replace raw_data ''TEMPLATE::'' ''$'') CHR 0x0A)))"
    by (rule nfs_loop_ok) (simp add: nfs_line_myserver)
  also have "\<dots> = Inr (concat (map (\<lambda>line.
                  (if find_str line ''--url'' \<noteq> - 1 \<and> find_str line ''url '' \<noteq> - 1
                   then ''nfs --server myserver --dir /export/dir\<newline>#url --url=nfs://myserver:/export/dir''
                   else replace line ''TEMPLATE::'' ''$'') @ ''\<newline>'')
                (split raw_data CHR 0x0A)))"
    by (simp add: split_replace_alias markers_replace_alias comp_def)
  finally show ?thesis
    using assms(2) by (simp add: render_cheetah_def cheetah_source_def)
qed

lemma split_kickstart_example:
  "split ''install\<newline>url --url=$tree'' CHR 0x0A = [''install'', ''url --url=$tree'']"
  by simp

lemma check_kickstart_example:
  "check_for_invalid_imports (Some example_settings) ''install\<newline>url --url=$tree'' = Inr ()"
  by (simp add: check_for_invalid_imports_def)

lemma find_kickstart_example:
  "find_str ''url --url=$tree'' ''--url'' \<noteq> - 1"
  "find_str ''url --url=$tree'' ''url '' \<noteq> - 1"
  "find_str ''install'' ''--url'' = - 1"
  by simp_all

theorem nfs_rewrite_lines_witness:
  "map_of (search_table (example_state [(''tree'', VStr ''nfs://myserver:/export/dir'')])) ''tree''
     = Some (VStr ''nfs://myserver:/export/dir'')
   \<and> check_for_invalid_imports (Some example_settings) ''install\<newline>url --url=$tree'' = Inr ()
   \<and> fst (render_cheetah example_env (Some example_settings)
            (example_state [(''tree'', VStr ''nfs://myserver:/export/dir'')])
            ''install\<newline>url --url=$tree'')
       = Inr ''#errorCatcher ListErrors\<newline>install\<newline>nfs --server myserver --dir /export/dir\<newline>#url --url=nfs://myserver:/export/dir\<newline>''"
proof -
  have h1: "map_of (search_table (example_state [(''tree'', VStr ''nfs://myserver:/export/dir'')]))
              ''tree'' = Some (VStr ''nfs://myserver:/export/dir'')"
    by (simp add: example_state_def)
  show ?thesis
    using h1 check_kickstart_example
      nfs_rewrite_lines [OF h1 check_kickstart_example, of example_env]
    by (simp add: split_kickstart_example find_kickstart_example replace_def
        cheetah_run_def example_env_def version_ge_def)
qed

text \<open>
  C9. With \<open>tree\<close> bound to a string that starts with \<open>nfs://\<close> and has no colon after
  that, a template with a line that contains both markers makes \<open>render_cheetah\<close>
  raise \<open>CX\<close> and leave the state as it was; when the template passes the import
  check the exception is the one for the invalid NFS path. A \<open>render\<close> that resolves to
  the Cheetah engine with this source raises \<open>CX\<close> as well.
\<close>

theorem nfs_malformed_path:
  assumes "map_of (search_table s) ''tree'' = Some (VStr t)"
    and "startswith t ''nfs://''"
    and "CHR '':'' \<notin> set (drop 6 t)"
    and "line \<in> set (split raw_data CHR 0x0A)"
    and "find_str line ''--url'' \<noteq> - 1"
    and "find_str line ''url '' \<noteq> - 1"
  shows "(\<exists>msg. render_cheetah e st s raw_data = (Inl (CX msg), s))
       \<and> (check_for_invalid_imports st raw_data = Inr () \<longrightarrow>
            render_cheetah e st s raw_data =
              (Inl (CX (''Invalid syntax for NFS path given during import: '' @ t)), s))
       \<and> (template_type \<in> {''default'', ''jinja2'', ''cheetah''}
            \<and> directive (default_type st template_type) (read_input data_input)
                = (''cheetah'', raw_data)
          \<longrightarrow> (\<exists>msg. render e st s data_input out_path template_type = (Inl (CX msg), s)))"
proof -
  let ?err = "CX (''Invalid syntax for NFS path given during import: '' @ t)"
  let ?l = "replace line ''TEMPLATE::'' ''$''"
  have sm: "split_max (drop 6 t) CHR '':'' 2 = [drop 6 t]"
    using assms(3) by (rule split_max_no_sep)
  have in_lines: "?l \<in> set (split (replace raw_data ''TEMPLATE::'' ''$'') CHR 0x0A)"
    using assms(4) by (simp add: split_replace_alias)
  have bad: "nfs_line t ?l = Inl ?err"
    using assms(5,6) by (simp add: nfs_line_def markers_replace_alias sm)
  have only: "\<And>l' err'. nfs_line t l' = Inl err' \<Longrightarrow> err' = ?err"
    by (auto simp: nfs_line_def sm split: if_splits)
  have loop: "nfs_loop t [] (split (replace raw_data ''TEMPLATE::'' ''$'') CHR 0x0A) = Inl ?err"
    using in_lines bad only by (rule nfs_loop_fail)
  have rw: "nfs_rewrite (search_table s) (replace raw_data ''TEMPLATE::'' ''$'') = Inl ?err"
    using assms(1,2) loop by (simp add: nfs_rewrite_def)
  have ok: "check_for_invalid_imports st raw_data = Inr () \<longrightarrow>
            render_cheetah e st s raw_data = (Inl ?err, s)"
    using rw by (simp add: render_cheetah_def cheetah_source_def)
  have ex: "\<exists>msg. render_cheetah e st s raw_data = (Inl (CX msg), s)"
  proof (cases "check_for_invalid_imports st raw_data = Inr ()")
    case True
    with ok show ?thesis by blast
  next
    case False
    then obtain msg where "check_for_invalid_imports st raw_data = Inl (CX msg)"
      using check_lines_result [of st "split raw_data CHR 0x0A"]
      by (auto simp: check_for_invalid_imports_def)
    then show ?thesis by (simp add: render_cheetah_def cheetah_source_def)
  qed
  have "template_type \<in> {''default'', ''jinja2'', ''cheetah''}
            \<and> directive (default_type st template_type) (read_input data_input)
                = (''cheetah'', raw_data)
          \<longrightarrow> (\<exists>msg. render e st s data_input out_path template_type = (Inl (CX msg), s))"
  proof
    assume a: "template_type \<in> {''default'', ''jinja2'', ''cheetah''}
            \<and> directive (default_type st template_type) (read_input data_input)
                = (''cheetah'', raw_data)"
    from ex obtain msg where m: "render_cheetah e st s raw_data = (Inl (CX msg), s)" by blast
    then have "run_engine e st s ''cheetah'' raw_data = Inr (Inl (CX msg), s)"
      by (simp add: run_engine_def)
    from render_engine [OF _ _ this, of template_type data_input out_path] a
    show "\<exists>msg. render e st s data_input out_path template_type = (Inl (CX msg), s)"
      by simp
  qed
  with ex ok show ?thesis by blast
qed

theorem nfs_malformed_path_witness:
  "map_of (search_table (example_state [(''tree'', VStr ''nfs://myserver/export/dir'')])) ''tree''
     = Some (VStr ''nfs://myserver/export/dir'')
   \<and> startswith ''nfs://myserver/export/dir'' ''nfs://''
   \<and> CHR '':'' \<notin> set (drop 6 ''nfs://myserver/export/dir'')
   \<and> ''url --url=$tree'' \<in> set (split ''install\<newline>url --url=$tree'' CHR 0x0A)
   \<and> find_str ''url --url=$tree'' ''--url'' \<noteq> - 1
   \<and> find_str ''url --url=$tree'' ''url '' \<noteq> - 1
   \<and> render_cheetah example_env (Some example_settings)
        (example_state [(''tree'', VStr ''nfs://myserver/export/dir'')])
        ''install\<newline>url --url=$tree''
       = (Inl (CX ''Invalid syntax for NFS path given during import: nfs://myserver/export/dir''),
          example_state [(''tree'', VStr ''nfs://myserver/export/dir'')])"
proof -
  have h1: "map_of (search_table (example_state [(''tree'', VStr ''nfs://myserver/export/dir'')]))
              ''tree'' = Some (VStr ''nfs://myserver/export/dir'')"
    by (simp add: example_state_def)
  have h2: "startswith ''nfs://myserver/export/dir'' ''nfs://''" by simp
  have h3: "CHR '':'' \<notin> set (drop 6 ''nfs://myserver/export/dir'')" by simp
  have h4: "''url --url=$tree'' \<in> set (split ''install\<newline>url --url=$tree'' CHR 0x0A)"
    by (simp add: split_kickstart_example)
  show ?thesis
    using h1 h2 h3 h4 find_kickstart_example(1,2) check_kickstart_example
      nfs_malformed_path [OF h1 h2 h3 h4 find_kickstart_example(1,2),
        where e = example_env and st = "Some example_settings"]
    by simp
qed

section \<open>The \<open>#template=\<close> directive\<close>






lemma split_directive_example:
  "split ''#template= Jinja2 =x\<newline>hello'' CHR 0x0A = [''#template= Jinja2 =x'', ''hello'']"
  by simp





section \<open>The token substitution\<close>

lemma substitute_missing:
  assumes "m \<in> set ms" "map_of tbl (strip_chars ''@@'' m) = None"
  shows "(\<exists>m' \<in> set ms. map_of tbl (strip_chars ''@@'' m') = None
            \<and> substitute tbl ms d = Inl (KeyError (strip_chars ''@@'' m')))
       \<or> (\<exists>m' \<in> set ms. \<exists>v msg. map_of tbl (strip_chars ''@@'' m') = Some v
            \<and> (\<forall>x. v \<noteq> VStr x) \<and> substitute tbl ms d = Inl (TypeError msg))"
  using assms
proof (induction ms arbitrary: d)
  case Nil
  then show ?case by simp
next
  case (Cons a ms)
  show ?case
  proof (cases "map_of tbl (strip_chars ''@@'' a)")
    case None
    then show ?thesis by auto
  next
    case (Some v)
    show ?thesis
    proof (cases v)
      case (VStr x)
      have "m \<noteq> a" using Some Cons.prems by auto
      then have "m \<in> set ms" using Cons.prems by simp
      from Cons.IH [OF this Cons.prems(2), of "replace d a x"]
      show ?thesis using Some VStr by auto
    next
      case (VInt i)
      then show ?thesis using Some by auto
    next
      case (VDict dd)
      then show ?thesis using Some by auto
    qed
  qed
qed

lemma substitute_strings:
  assumes "\<forall>m \<in> set ms. \<exists>v. map_of tbl (strip_chars ''@@'' m) = Some (VStr v)"
  shows "substitute tbl ms d =
           Inr (foldl (\<lambda>text m. replace text m
                  (case map_of tbl (strip_chars ''@@'' m) of Some (VStr v) \<Rightarrow> v | _ \<Rightarrow> []))
                d ms)"
  using assms
proof (induction ms arbitrary: d)
  case Nil
  then show ?case by simp
next
  case (Cons a ms)
  then obtain v where v: "map_of tbl (strip_chars ''@@'' a) = Some (VStr v)" by auto
  have "\<forall>m \<in> set ms. \<exists>v. map_of tbl (strip_chars ''@@'' m) = Some (VStr v)"
    using Cons.prems by simp
  from Cons.IH [OF this, of "replace d a v"] show ?case using v by simp
qed

lemma distinct_singleton: "distinct xs \<Longrightarrow> set xs = {m} \<Longrightarrow> xs = [m]"
proof (cases xs)
  case Nil
  assume "set xs = {m}"
  with Nil show ?thesis by simp
next
  case (Cons a ys)
  assume d: "distinct xs" and s: "set xs = {m}"
  have "a = m" using s Cons by auto
  moreover have "ys = []"
  proof (cases ys)
    case Nil
    then show ?thesis .
  next
    case (Cons b zs)
    then have "b = m" using s \<open>xs = a # ys\<close> by auto
    then show ?thesis using d \<open>xs = a # ys\<close> Cons \<open>a = m\<close> by simp
  qed
  ultimately show ?thesis using Cons by simp
qed

lemma http_server_table:
  "http_server (Some cfg) tbl = Inr tbl' \<Longrightarrow> k \<noteq> ''http_server'' \<Longrightarrow>
   map_of tbl' k = map_of tbl k"
  by (auto simp: http_server_def Let_def update_conv')

text \<open>
  The lookup on line 150 is not guarded. Take a \<open>render\<close> whose engine returned a text
  with a match of the token pattern whose key (the match without its leading and
  trailing \<open>@\<close>) is not in the dictionary at the time of the lookup, that is, is
  neither \<open>http_server\<close> nor a key of the dictionary the engine left. The \<open>render\<close>
  raises, returns no text and writes no file. On a Templar with settings what it raises
  is the \<open>KeyError\<close> of such a key, unless the loop met before it a token whose value
  is not a string, where \<open>str.replace\<close> raises \<open>TypeError\<close>.
\<close>

lemma missing_key_raises:
  assumes "template_type \<in> {''default'', ''jinja2'', ''cheetah''}"
    and "directive (default_type st template_type) (read_input data_input) = (tt, raw)"
    and "run_engine e st s tt raw = Inr (Inr data_out, s1)"
    and "m \<in> set (finditer data_out)"
    and "strip_chars ''@@'' m \<noteq> ''http_server''"
    and "map_of (search_table s1) (strip_chars ''@@'' m) = None"
  shows "\<exists>err. fst (render e st s data_input out_path template_type) = Inl err
           \<and> files (snd (render e st s data_input out_path template_type)) = files s1
           \<and> (st \<noteq> None \<longrightarrow>
                ((\<exists>m' \<in> set (finditer data_out).
                     err = KeyError (strip_chars ''@@'' m')
                     \<and> strip_chars ''@@'' m' \<noteq> ''http_server''
                     \<and> map_of (search_table s1) (strip_chars ''@@'' m') = None)
                 \<or> (\<exists>m' \<in> set (finditer data_out). \<exists>v msg.
                     err = TypeError msg
                     \<and> map_of (search_table (snd (render e st s data_input out_path
                                  template_type))) (strip_chars ''@@'' m') = Some v
                     \<and> (\<forall>x. v \<noteq> VStr x))))"
proof -
  have r: "render e st s data_input out_path template_type
             = post_filter e st out_path s1 data_out"
    using render_engine [OF assms(1,2,3), of out_path] by simp
  show ?thesis
  proof (cases st)
    case None
    have "render e None s data_input out_path template_type
            = post_filter e None out_path s1 data_out"
      using r None by simp
    then show ?thesis using None by (simp add: post_filter_def http_server_def)
  next
    case (Some cfg)
    obtain tbl where tbl: "http_server (Some cfg) (search_table s1) = Inr tbl"
      by (simp add: http_server_def Let_def)
    have key: "map_of tbl (strip_chars ''@@'' m) = None"
      using http_server_table [OF tbl assms(5)] assms(6) by simp
    have mem: "m \<in> set (set_order e (finditer data_out))"
      using assms(4) by (simp add: set_set_order)
    from substitute_missing [OF mem key, of data_out]
    consider m' where "m' \<in> set (finditer data_out)"
          "map_of tbl (strip_chars ''@@'' m') = None"
          "token_substitution e tbl data_out = Inl (KeyError (strip_chars ''@@'' m'))"
      | m' v msg where "m' \<in> set (finditer data_out)"
          "map_of tbl (strip_chars ''@@'' m') = Some v" "\<forall>x. v \<noteq> VStr x"
          "token_substitution e tbl data_out = Inl (TypeError msg)"
      unfolding token_substitution_def set_set_order by blast
    then show ?thesis
    proof cases
      case 1
      have hs: "map_of tbl ''http_server'' \<noteq> None"
        using tbl by (auto simp: http_server_def Let_def update_Some_unfold)
      then have ne: "strip_chars ''@@'' m' \<noteq> ''http_server''" using 1(2) by auto
      have absent: "map_of (search_table s1) (strip_chars ''@@'' m') = None"
        using http_server_table [OF tbl ne] 1(2) by simp
      have "fst (post_filter e st out_path s1 data_out) = Inl (KeyError (strip_chars ''@@'' m'))"
        and "files (snd (post_filter e st out_path s1 data_out)) = files s1"
        using 1(3) Some tbl by (simp_all add: post_filter_def Let_def)
      then show ?thesis using 1(1) ne absent by (auto simp add: r)
    next
      case 2
      have "fst (post_filter e st out_path s1 data_out) = Inl (TypeError msg)"
        and "files (snd (post_filter e st out_path s1 data_out)) = files s1"
        and "search_table (snd (post_filter e st out_path s1 data_out)) = tbl"
        using 2(4) Some tbl by (simp_all add: post_filter_def Let_def)
      then show ?thesis using 2(1,2,3) by (auto simp add: r)
    qed
  qed
qed

lemma finditer_nokey_example: "finditer ''hello @@nokey@@'' = [''@@nokey@@'']"
  by (simp add: is_space_def)

lemma render_nokey_example:
  "render example_env (Some example_settings) (example_state [])
     (Str ''hello @@nokey@@'') None ''jinja2''
   = (Inl (KeyError ''nokey''), example_state [(''http_server'', VStr ''h1'')])"
  by (simp add: render_def read_input_def default_type_def directive_def run_engine_def
      render_jinja2_def example_env_def example_state_def example_settings_def post_filter_def
      http_server_def dict_get_def Let_def token_substitution_def set_order_def is_space_def
      strip_chars_def)

lemma finditer_two_example: "finditer ''@@a@@ @@nokey@@'' = [''@@a@@'', ''@@nokey@@'']"
  by (simp add: is_space_def)

lemma render_jinja2_text:
  assumes "src \<noteq> ''{{''"
    and "http_server (Some example_settings) tbl = Inr tbl'"
    and "find_str (hd (split src CHR 0x0A)) ''#template='' \<noteq> 0"
  shows "render example_env (Some example_settings) (example_state tbl) (Str src) None ''jinja2''
           = (case token_substitution example_env tbl' src of
                Inl err \<Rightarrow> (Inl err, example_state tbl')
              | Inr d \<Rightarrow> (Inr (trim_leading d), example_state tbl'))"
proof -
  have d: "directive (default_type (Some example_settings) ''jinja2'') (read_input (Str src))
             = (''jinja2'', src)"
    using assms(3) by (simp add: directive_def default_type_def read_input_def)
  have eng: "run_engine example_env (Some example_settings) (example_state tbl) ''jinja2'' src
               = Inr (Inr src, example_state tbl)"
    using assms(1) by (simp add: run_engine_def render_jinja2_def example_env_def)
  have pf: "post_filter example_env (Some example_settings) None (example_state tbl) src
              = (case token_substitution example_env tbl' src of
                   Inl err \<Rightarrow> (Inl err, example_state tbl')
                 | Inr d \<Rightarrow> (Inr (trim_leading d), example_state tbl'))"
    using assms(2)
    by (simp add: post_filter_write write_out_None example_state_def split: sum.splits)
  show ?thesis
    using render_engine [OF _ d eng, of None] by (simp add: pf)
qed

lemma finditer_at_example: "finditer ''@@@x@@'' = [''@@@x@@'']"
  by (simp add: is_space_def)

text \<open>
  C7. A text with a token whose key is absent does not always end in the lookup
  failure, because of what line 150 does with the token and with the value. With the
  dictionary \<open>{"a": 1}\<close> and the text \<open>@@a@@ @@nokey@@\<close>, the set yielding \<open>@@a@@\<close>
  first, the loop hands the number 1 to \<open>str.replace\<close>, which raises \<open>TypeError\<close>: the
  \<open>render\<close> aborts before the key \<open>nokey\<close> is looked up, and no \<open>KeyError\<close> is raised
  (line 140 formats such a value with \<open>%s\<close>; line 150 does not). And whatever the order
  of the set, with the dictionary \<open>{"x": "v"}\<close> and the text \<open>@@@x@@\<close>, whose key \<open>@x\<close>
  is absent, \<open>strip("@@")\<close> removes every leading \<open>@\<close>, the value of \<open>x\<close> is found, and
  the \<open>render\<close> returns \<open>v\<close> instead of aborting.
\<close>

theorem missing_key_no_lookup_failure:
  "set_order example_env (finditer ''@@a@@ @@nokey@@'') = [''@@a@@'', ''@@nokey@@'']
   \<and> map_of [(''a'', VInt 1), (''http_server'', VStr ''h1'')] ''nokey'' = None
   \<and> render example_env (Some example_settings) (example_state [(''a'', VInt 1)])
        (Str ''@@a@@ @@nokey@@'') None ''jinja2''
     = (Inl (TypeError ''replace() argument 2 must be str''),
        example_state [(''a'', VInt 1), (''http_server'', VStr ''h1'')])
   \<and> finditer ''@@@x@@'' = [''@@@x@@'']
   \<and> map_of [(''x'', VStr ''v''), (''http_server'', VStr ''h1'')] ''@x'' = None
   \<and> render example_env (Some example_settings) (example_state [(''x'', VStr ''v'')])
        (Str ''@@@x@@'') None ''jinja2''
     = (Inr ''v'', example_state [(''x'', VStr ''v''), (''http_server'', VStr ''h1'')])"
proof -
  have o: "set_order example_env (finditer ''@@a@@ @@nokey@@'') = [''@@a@@'', ''@@nokey@@'']"
    by (simp add: finditer_two_example set_order_def example_env_def is_space_def)
  have hs: "http_server (Some example_settings) [(''a'', VInt 1)]
              = Inr [(''a'', VInt 1), (''http_server'', VStr ''h1'')]"
    by (simp add: http_server_def dict_get_def example_settings_def)
  have t: "token_substitution example_env [(''a'', VInt 1), (''http_server'', VStr ''h1'')]
             ''@@a@@ @@nokey@@'' = Inl (TypeError ''replace() argument 2 must be str'')"
    unfolding token_substitution_def o by (simp add: strip_chars_def)
  have f: "find_str (hd (split ''@@a@@ @@nokey@@'' CHR 0x0A)) ''#template='' \<noteq> 0"
    by simp
  have m: "map_of [(''a'', VInt 1), (''http_server'', VStr ''h1'')] ''nokey'' = None"
    by simp
  have r: "render example_env (Some example_settings) (example_state [(''a'', VInt 1)])
        (Str ''@@a@@ @@nokey@@'') None ''jinja2''
     = (Inl (TypeError ''replace() argument 2 must be str''),
        example_state [(''a'', VInt 1), (''http_server'', VStr ''h1'')])"
    using render_jinja2_text [OF _ hs f] by (simp add: t)
  have hs': "http_server (Some example_settings) [(''x'', VStr ''v'')]
              = Inr [(''x'', VStr ''v''), (''http_server'', VStr ''h1'')]"
    by (simp add: http_server_def dict_get_def example_settings_def)
  have t': "token_substitution example_env [(''x'', VStr ''v''), (''http_server'', VStr ''h1'')]
             ''@@@x@@'' = Inr ''v''"
    by (simp add: token_substitution_def finditer_at_example set_order_def strip_chars_def
        replace_def is_space_def)
  have f': "find_str (hd (split ''@@@x@@'' CHR 0x0A)) ''#template='' \<noteq> 0"
    by simp
  have m': "map_of [(''x'', VStr ''v''), (''http_server'', VStr ''h1'')] ''@x'' = None"
    by simp
  have r': "render example_env (Some example_settings) (example_state [(''x'', VStr ''v'')])
        (Str ''@@@x@@'') None ''jinja2''
     = (Inr ''v'', example_state [(''x'', VStr ''v''), (''http_server'', VStr ''h1'')])"
    using render_jinja2_text [OF _ hs' f'] by (simp add: t' trim_leading_def)
  show ?thesis
    by (rule conjI [OF o conjI [OF m conjI [OF r
          conjI [OF finditer_at_example conjI [OF m' r']]]]])
qed

text \<open>On a Templar built without a collection manager the \<open>render\<close> does not reach the
  lookup either: line 138 reads \<open>self.settings.server\<close> and raises \<open>AttributeError\<close>
  before any token is looked at, although lines 88, 113 and 250 test \<open>self.settings\<close>
  first.\<close>

lemma missing_key_no_settings:
  "render example_env None (example_state []) (Str ''hello @@nokey@@'') None ''jinja2''
     = (Inl (AttributeError ''server''), example_state [])"
proof -
  have d: "directive (default_type None ''jinja2'') (read_input (Str ''hello @@nokey@@''))
             = (''jinja2'', ''hello @@nokey@@'')"
    by (simp add: directive_def default_type_def read_input_def)
  have eng: "run_engine example_env None (example_state []) ''jinja2'' ''hello @@nokey@@''
               = Inr (Inr ''hello @@nokey@@'', example_state [])"
    by (simp add: run_engine_def render_jinja2_def example_env_def)
  show ?thesis
    using render_engine [OF _ d eng, of None] by (simp add: post_filter_no_settings)
qed

text \<open>
  What holds of the substitution. A text without a match is returned unchanged. A text
  all of whose matches are the same token, with the key bound to a string, is returned
  with \<open>str.replace\<close> applied: every occurrence of the token, from the left and without
  overlap, has become that string. With several tokens, all bound to strings, the
  replacements are made one after the other, in the order in which the set is iterated,
  each on the text the one before has left.
\<close>

lemma token_substitution_strings:
  "(finditer data_out = [] \<longrightarrow> token_substitution e tbl data_out = Inr data_out)
   \<and> (set (finditer data_out) = {m} \<and> map_of tbl (strip_chars ''@@'' m) = Some (VStr v)
        \<longrightarrow> token_substitution e tbl data_out = Inr (replace data_out m v))
   \<and> ((\<forall>m' \<in> set (finditer data_out). \<exists>v'. map_of tbl (strip_chars ''@@'' m') = Some (VStr v'))
        \<longrightarrow> token_substitution e tbl data_out =
              Inr (foldl (\<lambda>text m'. replace text m'
                     (case map_of tbl (strip_chars ''@@'' m') of Some (VStr v') \<Rightarrow> v' | _ \<Rightarrow> []))
                   data_out (set_order e (finditer data_out))))"
proof (intro conjI impI)
  assume "finditer data_out = []"
  then show "token_substitution e tbl data_out = Inr data_out"
    by (simp add: token_substitution_def set_order_Nil)
next
  assume a: "set (finditer data_out) = {m} \<and> map_of tbl (strip_chars ''@@'' m) = Some (VStr v)"
  have "set_order e (finditer data_out) = [m]"
    using a by (intro distinct_singleton) (simp_all add: distinct_set_order set_set_order)
  then show "token_substitution e tbl data_out = Inr (replace data_out m v)"
    using a by (simp add: token_substitution_def)
next
  assume "\<forall>m' \<in> set (finditer data_out). \<exists>v'. map_of tbl (strip_chars ''@@'' m') = Some (VStr v')"
  then have "\<forall>m' \<in> set (set_order e (finditer data_out)).
               \<exists>v'. map_of tbl (strip_chars ''@@'' m') = Some (VStr v')"
    by (simp add: set_set_order)
  then show "token_substitution e tbl data_out =
              Inr (foldl (\<lambda>text m'. replace text m'
                     (case map_of tbl (strip_chars ''@@'' m') of Some (VStr v') \<Rightarrow> v' | _ \<Rightarrow> []))
                   data_out (set_order e (finditer data_out)))"
    unfolding token_substitution_def by (rule substitute_strings)
qed

lemma finditer_name_example: "finditer ''x @@name@@ y'' = [''@@name@@'']"
  by (simp add: is_space_def)

lemma finditer_plain_example: "finditer ''plain text'' = []"
  by (simp add: is_space_def)

lemma replace_name_example: "replace ''x @@name@@ y'' ''@@name@@'' ''alpha'' = ''x alpha y''"
  by (simp add: replace_def)

lemma token_substitution_examples:
  "token_substitution example_env [(''name'', VStr ''alpha'')] ''plain text'' = Inr ''plain text''"
  "token_substitution example_env [(''name'', VStr ''alpha'')] ''x @@name@@ y'' = Inr ''x alpha y''"
  by (simp_all add: token_substitution_def finditer_plain_example finditer_name_example
      set_order_def strip_chars_def replace_name_example is_space_def)

lemma finditer_port_example: "finditer ''port @@http_port@@'' = [''@@http_port@@'']"
  by (simp add: is_space_def)

text \<open>
  C4. The value of a token is handed to \<open>str.replace\<close> as it is, and \<open>str.replace\<close>
  takes a string only. With the dictionary \<open>{"server": "h1", "http_port": 8080}\<close> and
  the text \<open>port @@http_port@@\<close> the substitution raises \<open>TypeError\<close> and the \<open>render\<close>
  aborts, where the textual form of the value would give \<open>port 8080\<close>. A few lines
  above, line 140 formats the same value with \<open>%s\<close>: the \<open>http_server\<close> entry the failed
  call leaves is \<open>h1:8080\<close>. The key, too, is not what is between the delimiters:
  \<open>strip("@@")\<close> removes every leading and trailing \<open>@\<close>, so the token \<open>@@@x@@\<close> asks
  for \<open>x\<close> and the value bound to its key \<open>@x\<close> is not found.
\<close>

theorem token_substitution_not_textual:
  "map_of [(''server'', VStr ''h1''), (''http_port'', VInt 8080)] ''http_port''
     = Some (VInt 8080)
   \<and> token_substitution example_env [(''server'', VStr ''h1''), (''http_port'', VInt 8080)]
        ''port @@http_port@@''
       = Inl (TypeError ''replace() argument 2 must be str'')
   \<and> render example_env (Some example_settings)
        (example_state [(''server'', VStr ''h1''), (''http_port'', VInt 8080)])
        (Str ''port @@http_port@@'') None ''jinja2''
       = (Inl (TypeError ''replace() argument 2 must be str''),
          example_state [(''server'', VStr ''h1''), (''http_port'', VInt 8080),
                         (''http_server'', VStr ''h1:8080'')])
   \<and> map_of [(''@x'', VStr ''v'')] ''@x'' = Some (VStr ''v'')
   \<and> token_substitution example_env [(''@x'', VStr ''v'')] ''@@@x@@'' = Inl (KeyError ''x'')"
proof -
  have t: "\<And>tbl. map_of tbl ''http_port'' = Some (VInt 8080) \<Longrightarrow>
             token_substitution example_env tbl ''port @@http_port@@''
               = Inl (TypeError ''replace() argument 2 must be str'')"
    by (simp add: token_substitution_def finditer_port_example set_order_def strip_chars_def
        is_space_def)
  have f: "find_str (hd (split ''port @@http_port@@'' CHR 0x0A)) ''#template='' \<noteq> 0"
    by simp
  have r: "render example_env (Some example_settings)
        (example_state [(''server'', VStr ''h1''), (''http_port'', VInt 8080)])
        (Str ''port @@http_port@@'') None ''jinja2''
       = (Inl (TypeError ''replace() argument 2 must be str''),
          example_state [(''server'', VStr ''h1''), (''http_port'', VInt 8080),
                         (''http_server'', VStr ''h1:8080'')])"
    using render_jinja2_text [OF _ http_server_examples(2) f] by (simp add: t)
  have k: "token_substitution example_env [(''@x'', VStr ''v'')] ''@@@x@@'' = Inl (KeyError ''x'')"
    by (simp add: token_substitution_def set_order_def finditer_at_example strip_chars_def
        is_space_def)
  show ?thesis
    using r k by (simp add: t)
qed

text \<open>The order of the replacements can be seen in the result: replacing a token may
  remove an occurrence of another one.\<close>

lemma token_order_matters:
  "finditer ''@@a@@b@@ @@b@@'' = [''@@a@@'', ''@@b@@'']"
  "substitute [(''a'', VStr ''1''), (''b'', VStr ''2'')] [''@@a@@'', ''@@b@@''] ''@@a@@b@@ @@b@@''
     = Inr ''1b@@ 2''"
  "substitute [(''a'', VStr ''1''), (''b'', VStr ''2'')] [''@@b@@'', ''@@a@@''] ''@@a@@b@@ @@b@@''
     = Inr ''@@a2 2''"
  by (simp_all add: is_space_def strip_chars_def replace_def)

end
